theory Spec2Isabelle
  imports Complex_Main
begin

section \<open>The tables and the configuration\<close>

text \<open>
  The optimizer of \<^verbatim>\<open>nba_fantasy_optimizer.py\<close> works on two pandas tables and a
  configuration dictionary. A table is modelled as the list of its rows; the index of the
  players table is the position of the row (\<^verbatim>\<open>pd.read_csv\<close> in \<^verbatim>\<open>main\<close> gives a
  \<^verbatim>\<open>RangeIndex\<close>), so \<^verbatim>\<open>players_df.index\<close> is \<open>[0..<length df]\<close>. Team and event
  identifiers and position types are integers, the numeric columns (cost, projected
  points) and the numeric configuration entries are exact reals.
\<close>

type_synonym team = int

record player =
  name :: string
  now_cost :: real
  element_type :: int
  team :: team
  points_per_game :: real

record game =
  event :: int
  team_h :: team
  team_a :: team

text \<open>
  The configuration: \<^verbatim>\<open>config["budget"]\<close>, \<^verbatim>\<open>config["start_gameday"]\<close>,
  \<^verbatim>\<open>config["end_gameday"]\<close>, \<^verbatim>\<open>config["transfers"]\<close>, \<^verbatim>\<open>config["initial_squad"]\<close>
  and the optional key \<^verbatim>\<open>"player_points_adjustments"\<close>, a dictionary kept as the list
  of its items in iteration order.
\<close>

record config =
  cfg_budget :: real
  cfg_start_gameday :: int
  cfg_end_gameday :: int
  cfg_transfers :: real
  cfg_initial_squad :: "string list"
  cfg_player_points_adjustments :: "(string \<times> real) list option"

definition index :: "player list \<Rightarrow> nat list" where
  "index df = [0..<length df]"

section \<open>The linear program\<close>

text \<open>
  The six dictionaries of decision variables of \<^verbatim>\<open>initialize_variables\<close>; a variable is
  named by its dictionary and its key.
\<close>

datatype var =
    initial_squad nat
  | squad_day nat int
  | chosen_day nat int
  | t_in nat int
  | t_out nat int
  | doubled_score nat int

text \<open>Linear expressions as the source builds them, and the three kinds of constraint.
  The labels that the source gives to some constraints (\<^verbatim>\<open>"Budget Day {d}"\<close>,
  \<^verbatim>\<open>"Transfer_In_Consistency_{i}_{d}"\<close>) are pairwise different and mean nothing to
  the solver; they are left out.\<close>

datatype lexpr =
    Var var
  | Num real
  | Add lexpr lexpr
  | Sub lexpr lexpr
  | Mul real lexpr
  | lpSum "lexpr list"

datatype constraint =
    LE lexpr lexpr
  | GE lexpr lexpr
  | EQ lexpr lexpr

datatype status =
    LpStatusOptimal
  | LpStatusNotSolved
  | LpStatusInfeasible
  | LpStatusUnbounded
  | LpStatusUndefined

record lp_problem =
  constraints :: "constraint list"
  objective :: "lexpr option"
  lp_status :: status

text \<open>The value of an expression, and the truth of a constraint, under an assignment of
  integers to the variables.\<close>

fun eval :: "(var \<Rightarrow> int) \<Rightarrow> lexpr \<Rightarrow> real" where
  "eval a (Var v) = of_int (a v)"
| "eval a (Num c) = c"
| "eval a (Add e f) = eval a e + eval a f"
| "eval a (Sub e f) = eval a e - eval a f"
| "eval a (Mul c e) = c * eval a e"
| "eval a (lpSum es) = sum_list (map (eval a) es)"

fun sat :: "(var \<Rightarrow> int) \<Rightarrow> constraint \<Rightarrow> bool" where
  "sat a (LE e f) = (eval a e \<le> eval a f)"
| "sat a (GE e f) = (eval a e \<ge> eval a f)"
| "sat a (EQ e f) = (eval a e = eval a f)"

text \<open>\<^verbatim>\<open>pulp.value\<close> on the solved values of the variables. PuLP keeps an expression
  as a dictionary from variables to coefficients: the product of an expression with the
  number 0 is the empty expression, whose variables are not looked at, and the value is
  \<open>None\<close> as soon as a variable that is left has no value.\<close>

fun pulp_value :: "(var \<Rightarrow> real option) \<Rightarrow> lexpr \<Rightarrow> real option" where
  "pulp_value s (Var v) = s v"
| "pulp_value s (Num c) = Some c"
| "pulp_value s (Add e f) =
     (case (pulp_value s e, pulp_value s f) of
        (Some x, Some y) \<Rightarrow> Some (x + y) | _ \<Rightarrow> None)"
| "pulp_value s (Sub e f) =
     (case (pulp_value s e, pulp_value s f) of
        (Some x, Some y) \<Rightarrow> Some (x - y) | _ \<Rightarrow> None)"
| "pulp_value s (Mul c e) =
     (if c = 0 then Some 0
      else case pulp_value s e of Some x \<Rightarrow> Some (c * x) | None \<Rightarrow> None)"
| "pulp_value s (lpSum es) =
     fold (\<lambda>e r. case (r, pulp_value s e) of
                     (Some x, Some y) \<Rightarrow> Some (x + y) | _ \<Rightarrow> None) es (Some 0)"

text \<open>Whether the dictionary of an expression has a variable at all. When the objective
  has none, the call of the solver puts a dummy variable into it, which never gets a value,
  and \<^verbatim>\<open>pulp.value\<close> of the objective is \<open>None\<close> afterwards.\<close>

fun has_terms :: "lexpr \<Rightarrow> bool" where
  "has_terms (Var v) = True"
| "has_terms (Num c) = False"
| "has_terms (Add e f) = (has_terms e \<or> has_terms f)"
| "has_terms (Sub e f) = (has_terms e \<or> has_terms f)"
| "has_terms (Mul c e) = (c \<noteq> 0 \<and> has_terms e)"
| "has_terms (lpSum es) = (\<exists>e\<in>set es. has_terms e)"

section \<open>The optimizer object and the world it runs in\<close>

text \<open>
  The constructor keeps a reference to the caller's players table, not a copy, and
  \<^verbatim>\<open>adjust_player_points\<close> writes through it. The tables therefore live in a store of
  frames, addressed by \<open>addr\<close>; the world also holds what was printed and how often the
  external solver was called.
\<close>

type_synonym addr = nat

datatype line =
    Warning string
  | NoOptimal
  | TotalPoints "real option"
  | TransfersHeader
  | DayHeader int
  | TransfersInHeader
  | TransfersOutHeader
  | TransferLine string
  | InitialSquadHeader
  | SquadLine string

record world =
  frames :: "addr \<Rightarrow> player list"
  stdout :: "line list"
  solves :: nat

datatype error = IndexError

record optimizer =
  players_df :: addr
  games_df :: "game list"
  config :: config
  prob :: lp_problem
  budget :: real
  start_gameday :: int
  end_gameday :: int
  days :: "int list"
  variables :: "var list"
  lowBound :: "var \<Rightarrow> int"
  upBound :: "var \<Rightarrow> int"
  varValue :: "var \<Rightarrow> real option"

text \<open>The external solver: from the model to a status and the values it leaves in the
  variables.\<close>

type_synonym solver = "optimizer \<Rightarrow> status \<times> (var \<Rightarrow> real option)"

definition players :: "optimizer \<Rightarrow> world \<Rightarrow> player list" where
  "players self w = frames w (players_df self)"

text \<open>The constructor: the two tables, the configuration and an empty maximisation
  problem. The other attributes do not exist before \<^verbatim>\<open>setup_problem\<close> sets them; here
  they start with values that nothing reads.\<close>

definition NBAFantasyOptimizer :: "addr \<Rightarrow> game list \<Rightarrow> config \<Rightarrow> optimizer" where
  "NBAFantasyOptimizer pdf gdf cfg =
     \<lparr> players_df = pdf, games_df = gdf, config = cfg,
       prob = \<lparr> constraints = [], objective = None, lp_status = LpStatusNotSolved \<rparr>,
       budget = 0, start_gameday = 0, end_gameday = 0, days = [],
       variables = [], lowBound = (\<lambda>_. 0), upBound = (\<lambda>_. 0),
       varValue = (\<lambda>_. None) \<rparr>"

definition INITIAL_PLAYERS_COUNT :: real where "INITIAL_PLAYERS_COUNT = 10"
definition MIN_PLAYER_TYPE_COUNT :: real where "MIN_PLAYER_TYPE_COUNT = 2"
definition PLAYER_TYPE_COUNT :: real where "PLAYER_TYPE_COUNT = 5"
definition TOTAL_PLAYERS_PER_DAY :: real where "TOTAL_PLAYERS_PER_DAY = 5"
definition MAX_PLAYERS_FROM_SAME_TEAM :: real where "MAX_PLAYERS_FROM_SAME_TEAM = 2"

text \<open>\<^verbatim>\<open>self.prob += constraint\<close>.\<close>

definition add_all :: "constraint list \<Rightarrow> optimizer \<Rightarrow> optimizer" where
  "add_all cs self = self\<lparr> prob := (prob self)\<lparr> constraints := constraints (prob self) @ cs \<rparr> \<rparr>"

subsection \<open>\<^verbatim>\<open>initialize_variables\<close>\<close>

text \<open>Every variable is created with category Binary: an integer between 0 and 1.\<close>

definition keys2 :: "player list \<Rightarrow> int list \<Rightarrow> (nat \<times> int) list" where
  "keys2 df ds = concat (map (\<lambda>i. map (\<lambda>d. (i, d)) ds) (index df))"

definition all_variables :: "player list \<Rightarrow> int list \<Rightarrow> var list" where
  "all_variables df ds =
       map initial_squad (index df)
     @ map (\<lambda>(i, d). squad_day i d) (keys2 df ds)
     @ map (\<lambda>(i, d). chosen_day i d) (keys2 df ds)
     @ map (\<lambda>(i, d). t_in i d) (keys2 df ds)
     @ map (\<lambda>(i, d). t_out i d) (keys2 df ds)
     @ map (\<lambda>(i, d). doubled_score i d) (keys2 df ds)"

definition initialize_variables :: "optimizer \<Rightarrow> world \<Rightarrow> optimizer" where
  "initialize_variables self w =
     self\<lparr> variables := all_variables (players self w) (days self),
            lowBound := (\<lambda>_. 0), upBound := (\<lambda>_. 1) \<rparr>"

subsection \<open>\<^verbatim>\<open>adjust_player_points\<close>\<close>

text \<open>One pass of the loop body: the assignment through \<^verbatim>\<open>.loc\<close> replaces the points of
  every row of that name in the frame the optimizer refers to; a name that is in no row
  prints a warning.\<close>

definition set_points :: "string \<Rightarrow> real \<Rightarrow> player list \<Rightarrow> player list" where
  "set_points nm pts df =
     map (\<lambda>p. if name p = nm then p\<lparr> points_per_game := pts \<rparr> else p) df"

fun adjust_loop :: "addr \<Rightarrow> (string \<times> real) list \<Rightarrow> world \<Rightarrow> world" where
  "adjust_loop r [] w = w"
| "adjust_loop r ((player_name, pts) # items) w =
     (if player_name \<in> set (map name (frames w r))
      then adjust_loop r items
             (w\<lparr> frames := (frames w)(r := set_points player_name pts (frames w r)) \<rparr>)
      else adjust_loop r items
             (w\<lparr> stdout := stdout w @ [Warning player_name] \<rparr>))"

text \<open>\<^verbatim>\<open>setup_problem\<close> calls the method only when the configuration has the key; without
  the key there is nothing to iterate over.\<close>

definition adjust_player_points :: "optimizer \<Rightarrow> world \<Rightarrow> world" where
  "adjust_player_points self w =
     (case cfg_player_points_adjustments (config self) of
        Some items \<Rightarrow> adjust_loop (players_df self) items w
      | None \<Rightarrow> w)"

subsection \<open>\<^verbatim>\<open>add_initial_player_constraints\<close>\<close>

text \<open>\<^verbatim>\<open>players_df[players_df["name"] == player_name].index[0]\<close>: the first row of that
  name, and an \<^verbatim>\<open>IndexError\<close> when there is none.\<close>

definition first_index :: "player list \<Rightarrow> string \<Rightarrow> error + nat" where
  "first_index df nm =
     (case filter (\<lambda>i. name (df ! i) = nm) (index df) of
        [] \<Rightarrow> Inl IndexError
      | i # _ \<Rightarrow> Inr i)"

fun fix_initial :: "player list \<Rightarrow> string list \<Rightarrow> optimizer \<Rightarrow> error + optimizer" where
  "fix_initial df [] self = Inr self"
| "fix_initial df (player_name # rest) self =
     (case first_index df player_name of
        Inl e \<Rightarrow> Inl e
      | Inr player_index \<Rightarrow>
          fix_initial df rest
            (self\<lparr> upBound := (upBound self)(initial_squad player_index := 1),
                   lowBound := (lowBound self)(initial_squad player_index := 1) \<rparr>))"

definition initial_count_constraint :: "player list \<Rightarrow> constraint" where
  "initial_count_constraint df =
     EQ (lpSum (map (\<lambda>i. Var (initial_squad i)) (index df))) (Num INITIAL_PLAYERS_COUNT)"

definition add_initial_player_constraints :: "optimizer \<Rightarrow> world \<Rightarrow> error + optimizer" where
  "add_initial_player_constraints self w =
     (let df = players self w in
      fix_initial df (cfg_initial_squad (config self))
        (add_all [initial_count_constraint df] self))"

subsection \<open>\<^verbatim>\<open>add_budget_constraints\<close>\<close>

definition budget_constraints :: "optimizer \<Rightarrow> player list \<Rightarrow> constraint list" where
  "budget_constraints self df =
     LE (lpSum (map (\<lambda>i. Mul (now_cost (df ! i)) (Var (initial_squad i))) (index df)))
        (Num (cfg_budget (config self)))
     # map (\<lambda>d. LE (lpSum (map (\<lambda>i. Mul (now_cost (df ! i)) (Var (squad_day i d))) (index df)))
                   (Num (cfg_budget (config self))))
         (days self)"

definition add_budget_constraints :: "optimizer \<Rightarrow> world \<Rightarrow> optimizer" where
  "add_budget_constraints self w = add_all (budget_constraints self (players self w)) self"

subsection \<open>\<^verbatim>\<open>add_transfer_constraints\<close>\<close>

text \<open>\<^verbatim>\<open>pulp.lpSum\<close> of a dictionary sums its values, here every variable of the
  dictionary.\<close>

definition transfer_limits :: "optimizer \<Rightarrow> player list \<Rightarrow> constraint list" where
  "transfer_limits self df =
     [LE (lpSum (map (\<lambda>(i, d). Var (t_in i d)) (keys2 df (days self))))
         (Num (cfg_transfers (config self))),
      LE (lpSum (map (\<lambda>(i, d). Var (t_out i d)) (keys2 df (days self))))
         (Num (cfg_transfers (config self)))]"

definition transfer_consistency :: "optimizer \<Rightarrow> nat \<Rightarrow> int \<Rightarrow> constraint list" where
  "transfer_consistency self i d =
     (if d = start_gameday self
      then [GE (Var (t_in i d)) (Sub (Var (squad_day i d)) (Var (initial_squad i))),
            GE (Var (t_out i d)) (Sub (Var (initial_squad i)) (Var (squad_day i d)))]
      else [GE (Var (t_in i d)) (Sub (Var (squad_day i d)) (Var (squad_day i (d - 1)))),
            GE (Var (t_out i d)) (Sub (Var (squad_day i (d - 1))) (Var (squad_day i d)))])"

definition transfer_constraints :: "optimizer \<Rightarrow> player list \<Rightarrow> constraint list" where
  "transfer_constraints self df =
     transfer_limits self df
     @ concat (map (\<lambda>i. concat (map (\<lambda>d. transfer_consistency self i d) (days self)))
                 (index df))"

definition add_transfer_constraints :: "optimizer \<Rightarrow> world \<Rightarrow> optimizer" where
  "add_transfer_constraints self w = add_all (transfer_constraints self (players self w)) self"

subsection \<open>\<^verbatim>\<open>add_daily_constraints\<close>\<close>

definition of_type :: "player list \<Rightarrow> int \<Rightarrow> nat list" where
  "of_type df t = filter (\<lambda>i. element_type (df ! i) = t) (index df)"

definition lineup_constraints :: "player list \<Rightarrow> int \<Rightarrow> constraint list" where
  "lineup_constraints df d =
     [GE (lpSum (map (\<lambda>i. Var (chosen_day i d)) (of_type df 1))) (Num MIN_PLAYER_TYPE_COUNT),
      GE (lpSum (map (\<lambda>i. Var (chosen_day i d)) (of_type df 2))) (Num MIN_PLAYER_TYPE_COUNT),
      EQ (lpSum (map (\<lambda>i. Var (chosen_day i d)) (index df))) (Num TOTAL_PLAYERS_PER_DAY),
      EQ (lpSum (map (\<lambda>i. Var (doubled_score i d)) (index df))) (Num 1)]"

definition squad_size_constraints :: "player list \<Rightarrow> int \<Rightarrow> constraint list" where
  "squad_size_constraints df d =
     [EQ (lpSum (map (\<lambda>i. Var (squad_day i d)) (of_type df 1))) (Num PLAYER_TYPE_COUNT),
      EQ (lpSum (map (\<lambda>i. Var (squad_day i d)) (of_type df 2))) (Num PLAYER_TYPE_COUNT)]"

definition membership_constraints :: "player list \<Rightarrow> int \<Rightarrow> constraint list" where
  "membership_constraints df d =
     concat (map (\<lambda>i. [LE (Var (chosen_day i d)) (Var (squad_day i d)),
                        LE (Var (doubled_score i d)) (Var (chosen_day i d))])
               (index df))"

definition daily_constraints :: "optimizer \<Rightarrow> player list \<Rightarrow> constraint list" where
  "daily_constraints self df =
     concat (map (\<lambda>d. lineup_constraints df d @ squad_size_constraints df d
                       @ membership_constraints df d)
               (days self))"

definition add_daily_constraints :: "optimizer \<Rightarrow> world \<Rightarrow> optimizer" where
  "add_daily_constraints self w = add_all (daily_constraints self (players self w)) self"

subsection \<open>\<^verbatim>\<open>add_team_constraints\<close>\<close>

text \<open>\<^verbatim>\<open>players_df["team"].unique()\<close>: the teams in the order of their first
  appearance.\<close>

definition unique :: "'a list \<Rightarrow> 'a list" where
  "unique xs = rev (remdups (rev xs))"

definition team_constraints :: "optimizer \<Rightarrow> player list \<Rightarrow> constraint list" where
  "team_constraints self df =
     concat (map (\<lambda>tm. map (\<lambda>d.
         LE (lpSum (map (\<lambda>i. Var (squad_day i d))
                      (filter (\<lambda>i. team (df ! i) = tm) (index df))))
            (Num MAX_PLAYERS_FROM_SAME_TEAM))
         (days self))
       (unique (map team df)))"

definition add_team_constraints :: "optimizer \<Rightarrow> world \<Rightarrow> optimizer" where
  "add_team_constraints self w = add_all (team_constraints self (players self w)) self"

subsection \<open>\<^verbatim>\<open>add_constraints\<close>\<close>

definition add_constraints :: "optimizer \<Rightarrow> world \<Rightarrow> error + optimizer" where
  "add_constraints self w =
     (case add_initial_player_constraints self w of
        Inl e \<Rightarrow> Inl e
      | Inr s1 \<Rightarrow>
          Inr (add_team_constraints
                (add_daily_constraints
                  (add_transfer_constraints (add_budget_constraints s1 w) w) w) w))"

subsection \<open>\<^verbatim>\<open>set_objective_function\<close>\<close>

definition player_points_for_day :: "player list \<Rightarrow> game list \<Rightarrow> nat \<Rightarrow> int \<Rightarrow> real" where
  "player_points_for_day df gdf player_idx day =
     (let tm = team (df ! player_idx);
          games_on_day = filter (\<lambda>g. event g = day) gdf
      in if tm \<in> set (map team_h games_on_day) \<or> tm \<in> set (map team_a games_on_day)
         then points_per_game (df ! player_idx)
         else 0)"

text \<open>The summand of a player and a day, and the sum over all players and days.\<close>

definition objective_term :: "player list \<Rightarrow> game list \<Rightarrow> nat \<Rightarrow> int \<Rightarrow> lexpr" where
  "objective_term df gdf i d =
     Mul (player_points_for_day df gdf i d)
         (Add (Var (chosen_day i d)) (Var (doubled_score i d)))"

definition objective_function :: "optimizer \<Rightarrow> player list \<Rightarrow> lexpr" where
  "objective_function self df =
     lpSum (map (\<lambda>(i, d). objective_term df (games_df self) i d) (keys2 df (days self)))"

definition set_objective_function :: "optimizer \<Rightarrow> world \<Rightarrow> optimizer" where
  "set_objective_function self w =
     self\<lparr> prob := (prob self)\<lparr> objective := Some (objective_function self (players self w)) \<rparr> \<rparr>"

subsection \<open>The report: \<^verbatim>\<open>print_solution\<close> and \<^verbatim>\<open>print_initial_squad\<close>\<close>

definition day_report :: "optimizer \<Rightarrow> player list \<Rightarrow> int \<Rightarrow> line list" where
  "day_report self df d =
     (let transfers_in = filter (\<lambda>i. varValue self (t_in i d) = Some 1) (index df);
          transfers_out = filter (\<lambda>i. varValue self (t_out i d) = Some 1) (index df)
      in if transfers_in \<noteq> [] \<or> transfers_out \<noteq> []
         then DayHeader d
              # (if transfers_in \<noteq> []
                 then TransfersInHeader # map (\<lambda>i. TransferLine (name (df ! i))) transfers_in
                 else [])
              @ (if transfers_out \<noteq> []
                 then TransfersOutHeader # map (\<lambda>i. TransferLine (name (df ! i))) transfers_out
                 else [])
         else [])"

definition print_solution :: "optimizer \<Rightarrow> world \<Rightarrow> world" where
  "print_solution self w =
     (if lp_status (prob self) \<noteq> LpStatusOptimal
      then w\<lparr> stdout := stdout w @ [NoOptimal] \<rparr>
      else w\<lparr> stdout := stdout w
                 @ [TotalPoints (case objective (prob self) of
                                   None \<Rightarrow> None
                                 | Some e \<Rightarrow> if has_terms e
                                            then pulp_value (varValue self) e else None),
                    TransfersHeader]
                 @ concat (map (day_report self (players self w)) (days self)) \<rparr>)"

definition print_initial_squad :: "optimizer \<Rightarrow> world \<Rightarrow> world" where
  "print_initial_squad self w =
     (let df = players self w in
      w\<lparr> stdout := stdout w
            @ InitialSquadHeader
              # map (\<lambda>i. SquadLine (name (df ! i)))
                  (filter (\<lambda>i. varValue self (initial_squad i) = Some 1) (index df)) \<rparr>)"

subsection \<open>\<^verbatim>\<open>setup_problem\<close> and \<^verbatim>\<open>main\<close>\<close>

text \<open>Lines 21 to 25 of \<^verbatim>\<open>setup_problem\<close>: the window of days.\<close>

definition set_window :: "optimizer \<Rightarrow> optimizer" where
  "set_window self =
     self\<lparr> budget := cfg_budget (config self),
            start_gameday := cfg_start_gameday (config self),
            end_gameday := cfg_end_gameday (config self),
            days := [cfg_start_gameday (config self) .. cfg_end_gameday (config self)] \<rparr>"

text \<open>Lines 21 to 32: everything up to the call of the solver.\<close>

definition build_model :: "optimizer \<Rightarrow> world \<Rightarrow> (error + optimizer) \<times> world" where
  "build_model self w =
     (let s1 = set_window self;
          w1 = (if cfg_player_points_adjustments (config s1) \<noteq> None
                then adjust_player_points s1 w else w);
          s2 = initialize_variables s1 w1
      in case add_constraints s2 w1 of
           Inl e \<Rightarrow> (Inl e, w1)
         | Inr s3 \<Rightarrow> (Inr (set_objective_function s3 w1), w1))"

text \<open>Lines 35 and 36: the solver is called once, its status and values are stored, and
  the solution is printed.\<close>

definition solve :: "solver \<Rightarrow> optimizer \<Rightarrow> world \<Rightarrow> optimizer \<times> world" where
  "solve slv self w =
     (let (st, vals) = slv self in
      (self\<lparr> prob := (prob self)\<lparr> lp_status := st \<rparr>, varValue := vals \<rparr>,
       w\<lparr> solves := Suc (solves w) \<rparr>))"

definition setup_problem :: "solver \<Rightarrow> optimizer \<Rightarrow> world \<Rightarrow> (error + optimizer) \<times> world" where
  "setup_problem slv self w =
     (case build_model self w of
        (Inl e, w1) \<Rightarrow> (Inl e, w1)
      | (Inr s, w1) \<Rightarrow>
          (let (s', w2) = solve slv s w1 in (Inr s', print_solution s' w2)))"

text \<open>\<^verbatim>\<open>main\<close>, from the point where the three files have been read: the players table
  is stored at address 0, and an exception of \<^verbatim>\<open>setup_problem\<close> ends the run.\<close>

definition main :: "solver \<Rightarrow> config \<Rightarrow> player list \<Rightarrow> game list \<Rightarrow> (error + optimizer) \<times> world" where
  "main slv cfg pdf gdf =
     (let w0 = \<lparr> frames = (\<lambda>_. [])(0 := pdf), stdout = [], solves = 0 \<rparr>;
          optimizer = NBAFantasyOptimizer 0 gdf cfg
      in case setup_problem slv optimizer w0 of
           (Inl e, w1) \<Rightarrow> (Inl e, w1)
         | (Inr s, w1) \<Rightarrow> (Inr s, print_initial_squad s w1))"

section \<open>Feasible assignments\<close>

text \<open>An assignment is feasible for the model when every variable is within its bounds
  and every constraint holds.\<close>

definition feasible :: "optimizer \<Rightarrow> (var \<Rightarrow> int) \<Rightarrow> bool" where
  "feasible self a =
     (list_all (\<lambda>v. lowBound self v \<le> a v \<and> a v \<le> upBound self v) (variables self)
      \<and> list_all (sat a) (constraints (prob self)))"

text \<open>The sets an assignment stands for, read off as the report reads them (a variable
  of value 1): the initial squad, and the squad, the lineup and the captains of a day.\<close>

definition initial_squad_of :: "(var \<Rightarrow> int) \<Rightarrow> player list \<Rightarrow> nat list" where
  "initial_squad_of a df = filter (\<lambda>i. a (initial_squad i) = 1) (index df)"

definition squad_of :: "(var \<Rightarrow> int) \<Rightarrow> player list \<Rightarrow> int \<Rightarrow> nat list" where
  "squad_of a df d = filter (\<lambda>i. a (squad_day i d) = 1) (index df)"

definition lineup_of :: "(var \<Rightarrow> int) \<Rightarrow> player list \<Rightarrow> int \<Rightarrow> nat list" where
  "lineup_of a df d = filter (\<lambda>i. a (chosen_day i d) = 1) (index df)"

definition captains_of :: "(var \<Rightarrow> int) \<Rightarrow> player list \<Rightarrow> int \<Rightarrow> nat list" where
  "captains_of a df d = filter (\<lambda>i. a (doubled_score i d) = 1) (index df)"

text \<open>The schedule has a game on day \<open>d\<close> with team \<open>tm\<close> at home or away.\<close>

definition has_fixture :: "game list \<Rightarrow> team \<Rightarrow> int \<Rightarrow> bool" where
  "has_fixture gdf tm d = (\<exists>g\<in>set gdf. event g = d \<and> (team_h g = tm \<or> team_a g = tm))"

section \<open>A small league\<close>

text \<open>Ten players, five of each position type, two per team, a window of two days, no
  transfers allowed and one player named for the initial squad; and an assignment that
  keeps all ten players, fields five of them and makes the first one captain.\<close>

definition mk_player :: "string \<Rightarrow> real \<Rightarrow> int \<Rightarrow> team \<Rightarrow> real \<Rightarrow> player" where
  "mk_player nm c t tm pts =
     \<lparr> name = nm, now_cost = c, element_type = t, team = tm, points_per_game = pts \<rparr>"

definition ex_players :: "player list" where
  "ex_players =
     [mk_player ''P0'' 10 1 0 30, mk_player ''P1'' 10 1 0 28, mk_player ''P2'' 10 1 1 26,
      mk_player ''P3'' 10 1 1 24, mk_player ''P4'' 10 1 2 22, mk_player ''P5'' 10 2 2 20,
      mk_player ''P6'' 10 2 3 18, mk_player ''P7'' 10 2 3 16, mk_player ''P8'' 10 2 4 14,
      mk_player ''P9'' 10 2 4 12]"

definition ex_games :: "game list" where
  "ex_games = [\<lparr> event = 1, team_h = 0, team_a = 1 \<rparr>, \<lparr> event = 2, team_h = 2, team_a = 3 \<rparr>]"

definition ex_config :: config where
  "ex_config = \<lparr> cfg_budget = 100, cfg_start_gameday = 1, cfg_end_gameday = 2,
                 cfg_transfers = 0, cfg_initial_squad = [''P0''],
                 cfg_player_points_adjustments = None \<rparr>"

definition ex_world :: world where
  "ex_world = \<lparr> frames = (\<lambda>_. [])(0 := ex_players), stdout = [], solves = 0 \<rparr>"

definition ex_optimizer :: optimizer where
  "ex_optimizer = NBAFantasyOptimizer 0 ex_games ex_config"

fun ex_assignment :: "var \<Rightarrow> int" where
  "ex_assignment (initial_squad i) = 1"
| "ex_assignment (squad_day i d) = 1"
| "ex_assignment (chosen_day i d) = (if i \<in> {0, 1, 5, 6, 7} then 1 else 0)"
| "ex_assignment (t_in i d) = 0"
| "ex_assignment (t_out i d) = 0"
| "ex_assignment (doubled_score i d) = (if i = 0 then 1 else 0)"

definition ex_self :: optimizer where
  "ex_self = set_window ex_optimizer"

text \<open>The same league with two overrides of projected points, one of them for a name
  that no player has.\<close>

definition ex_items :: "(string \<times> real) list" where
  "ex_items = [(''P1'', 50), (''Nobody'', 7)]"

definition ex_config_adj :: config where
  "ex_config_adj = ex_config\<lparr> cfg_player_points_adjustments := Some ex_items \<rparr>"

definition ex_optimizer_adj :: optimizer where
  "ex_optimizer_adj = NBAFantasyOptimizer 0 ex_games ex_config_adj"

text \<open>A solver that reports the model infeasible and leaves the value 1 in the variable
  of the first player's place in the initial squad.\<close>

definition infeasible_solver :: solver where
  "infeasible_solver s = (LpStatusInfeasible, (\<lambda>_. None)(initial_squad 0 := Some 1))"

text \<open>Configurations of the small league that name players for the initial squad whom
  the table does not have, and one whose budget is 0.\<close>

definition ex_config_ghosts :: config where
  "ex_config_ghosts = ex_config\<lparr> cfg_initial_squad := [''Ghost'', ''Nobody''] \<rparr>"

definition ex_config_nobody :: config where
  "ex_config_nobody = ex_config\<lparr> cfg_initial_squad := [''Nobody''] \<rparr>"

definition ex_config_poor :: config where
  "ex_config_poor = ex_config\<lparr> cfg_budget := 0 \<rparr>"

text \<open>The small league with an eleventh player whose position type is 3, one transfer
  allowed, and an assignment that transfers this player in on the first day, so that the
  squad of each day has eleven members.\<close>

definition ex_players_big :: "player list" where
  "ex_players_big = ex_players @ [mk_player ''P10'' 10 3 5 40]"

definition ex_config_big :: config where
  "ex_config_big = ex_config\<lparr> cfg_budget := 110, cfg_transfers := 1 \<rparr>"

definition ex_world_big :: world where
  "ex_world_big = \<lparr> frames = (\<lambda>_. [])(0 := ex_players_big), stdout = [], solves = 0 \<rparr>"

definition ex_optimizer_big :: optimizer where
  "ex_optimizer_big = NBAFantasyOptimizer 0 ex_games ex_config_big"

fun ex_assignment_big :: "var \<Rightarrow> int" where
  "ex_assignment_big (initial_squad i) = (if i < 10 then 1 else 0)"
| "ex_assignment_big (squad_day i d) = 1"
| "ex_assignment_big (chosen_day i d) = (if i \<in> {0, 1, 5, 6, 7} then 1 else 0)"
| "ex_assignment_big (t_in i d) = (if i = 10 \<and> d = 1 then 1 else 0)"
| "ex_assignment_big (t_out i d) = 0"
| "ex_assignment_big (doubled_score i d) = (if i = 0 then 1 else 0)"

definition ex_self_big :: optimizer where
  "ex_self_big = set_window ex_optimizer_big"

text \<open>The league of eleven once more, with one transfer allowed but a budget of 100, which
  pays for ten players and not for eleven; and an assignment that keeps the first ten.\<close>

definition ex_config_tight :: config where
  "ex_config_tight = ex_config\<lparr> cfg_transfers := 1 \<rparr>"

definition ex_optimizer_tight :: optimizer where
  "ex_optimizer_tight = NBAFantasyOptimizer 0 ex_games ex_config_tight"

fun ex_assignment_ten :: "var \<Rightarrow> int" where
  "ex_assignment_ten (initial_squad i) = (if i < 10 then 1 else 0)"
| "ex_assignment_ten (squad_day i d) = (if i < 10 then 1 else 0)"
| "ex_assignment_ten (chosen_day i d) = (if i \<in> {0, 1, 5, 6, 7} then 1 else 0)"
| "ex_assignment_ten (t_in i d) = 0"
| "ex_assignment_ten (t_out i d) = 0"
| "ex_assignment_ten (doubled_score i d) = (if i = 0 then 1 else 0)"

definition ex_self_tight :: optimizer where
  "ex_self_tight = set_window ex_optimizer_tight"

section \<open>Properties\<close>

subsection \<open>The constraint lists of the built model\<close>

lemma keys2_mem: "(i, d) \<in> set (keys2 df ds) \<longleftrightarrow> i < length df \<and> d \<in> set ds"
  by (auto simp: keys2_def index_def)

lemma add_all_fields [simp]:
  "constraints (prob (add_all cs self)) = constraints (prob self) @ cs"
  "objective (prob (add_all cs self)) = objective (prob self)"
  "days (add_all cs self) = days self"
  "config (add_all cs self) = config self"
  "start_gameday (add_all cs self) = start_gameday self"
  "players_df (add_all cs self) = players_df self"
  "games_df (add_all cs self) = games_df self"
  "variables (add_all cs self) = variables self"
  "lowBound (add_all cs self) = lowBound self"
  "upBound (add_all cs self) = upBound self"
  by (simp_all add: add_all_def)

lemma players_add_all [simp]: "players (add_all cs self) w = players self w"
  by (simp add: players_def)

lemma lists_add_all [simp]:
  "budget_constraints (add_all cs self) df = budget_constraints self df"
  "transfer_constraints (add_all cs self) df = transfer_constraints self df"
  "daily_constraints (add_all cs self) df = daily_constraints self df"
  "team_constraints (add_all cs self) df = team_constraints self df"
  by (simp_all add: budget_constraints_def transfer_constraints_def transfer_limits_def
        transfer_consistency_def daily_constraints_def team_constraints_def)

lemma fix_initial_fields:
  assumes "fix_initial df nms self = Inr s"
  shows "prob s = prob self \<and> days s = days self \<and> config s = config self
       \<and> start_gameday s = start_gameday self \<and> players_df s = players_df self
       \<and> games_df s = games_df self \<and> variables s = variables self"
  using assms
  by (induction nms arbitrary: self) (auto split: sum.splits)

lemma fix_initial_bounds:
  assumes "fix_initial df nms self = Inr s"
    and "\<forall>v. 0 \<le> lowBound self v \<and> upBound self v \<le> 1"
  shows "\<forall>v. 0 \<le> lowBound s v \<and> upBound s v \<le> 1"
  using assms
  by (induction nms arbitrary: self) (auto split: sum.splits)

lemma lists_cong:
  assumes "days s = days self" "config s = config self" "start_gameday s = start_gameday self"
  shows "budget_constraints s df = budget_constraints self df"
    "transfer_constraints s df = transfer_constraints self df"
    "daily_constraints s df = daily_constraints self df"
    "team_constraints s df = team_constraints self df"
  using assms
  by (simp_all add: budget_constraints_def transfer_constraints_def transfer_limits_def
        transfer_consistency_def daily_constraints_def team_constraints_def)

lemma add_constraints_Inr:
  assumes "add_constraints self w = Inr s"
  shows "constraints (prob s) =
           constraints (prob self) @ [initial_count_constraint (players self w)]
           @ budget_constraints self (players self w)
           @ transfer_constraints self (players self w)
           @ daily_constraints self (players self w)
           @ team_constraints self (players self w)"
    and "days s = days self" and "config s = config self"
    and "start_gameday s = start_gameday self" and "players_df s = players_df self"
    and "games_df s = games_df self" and "variables s = variables self"
    and "(\<forall>v. 0 \<le> lowBound self v \<and> upBound self v \<le> 1)
         \<Longrightarrow> (\<forall>v. 0 \<le> lowBound s v \<and> upBound s v \<le> 1)"
proof -
  let ?df = "players self w"
  let ?s0 = "add_all [initial_count_constraint ?df] self"
  obtain s1 where s1: "fix_initial ?df (cfg_initial_squad (config self)) ?s0 = Inr s1"
    and s: "s = add_team_constraints
                (add_daily_constraints
                  (add_transfer_constraints (add_budget_constraints s1 w) w) w) w"
    using assms
    by (auto simp: add_constraints_def add_initial_player_constraints_def Let_def
          split: sum.splits)
  note f = fix_initial_fields [OF s1]
  have p: "players s1 w = ?df" using f by (simp add: players_def)
  have c: "budget_constraints s1 ?df = budget_constraints self ?df"
    "transfer_constraints s1 ?df = transfer_constraints self ?df"
    "daily_constraints s1 ?df = daily_constraints self ?df"
    "team_constraints s1 ?df = team_constraints self ?df"
    by (rule lists_cong; simp add: f)+
  show "constraints (prob s) =
           constraints (prob self) @ [initial_count_constraint ?df]
           @ budget_constraints self ?df @ transfer_constraints self ?df
           @ daily_constraints self ?df @ team_constraints self ?df"
    using f p c
    by (simp add: s add_team_constraints_def add_daily_constraints_def
          add_transfer_constraints_def add_budget_constraints_def)
  show "days s = days self" "config s = config self" "start_gameday s = start_gameday self"
    "players_df s = players_df self" "games_df s = games_df self" "variables s = variables self"
    using f
    by (simp_all add: s add_team_constraints_def add_daily_constraints_def
          add_transfer_constraints_def add_budget_constraints_def)
  show "(\<forall>v. 0 \<le> lowBound self v \<and> upBound self v \<le> 1)
         \<Longrightarrow> (\<forall>v. 0 \<le> lowBound s v \<and> upBound s v \<le> 1)"
    using fix_initial_bounds [OF s1]
    by (simp add: s add_team_constraints_def add_daily_constraints_def
          add_transfer_constraints_def add_budget_constraints_def)
qed

text \<open>What the constructed model is.\<close>

lemma build_model_Inr:
  assumes "build_model self w = (Inr s, w1)"
  shows "days s = [cfg_start_gameday (config self) .. cfg_end_gameday (config self)]"
    and "start_gameday s = cfg_start_gameday (config self)"
    and "config s = config self"
    and "players_df s = players_df self"
    and "games_df s = games_df self"
    and "variables s = all_variables (players s w1) (days s)"
    and "\<forall>v. 0 \<le> lowBound s v \<and> upBound s v \<le> 1"
    and "constraints (prob s) =
           constraints (prob self) @ [initial_count_constraint (players s w1)]
           @ budget_constraints s (players s w1)
           @ transfer_constraints s (players s w1)
           @ daily_constraints s (players s w1)
           @ team_constraints s (players s w1)"
    and "objective (prob s) = Some (objective_function s (players s w1))"
proof -
  let ?cfg = "config self"
  define s1 where "s1 = set_window self"
  define w1' where "w1' = (if cfg_player_points_adjustments (config s1) \<noteq> None
                then adjust_player_points s1 w else w)"
  define s2 where "s2 = initialize_variables s1 w1'"
  have "build_model self w =
        (case add_constraints s2 w1' of
           Inl e \<Rightarrow> (Inl e, w1')
         | Inr s3 \<Rightarrow> (Inr (set_objective_function s3 w1'), w1'))"
    unfolding build_model_def Let_def s1_def w1'_def s2_def ..
  with assms have r: "(case add_constraints s2 w1' of
           Inl e \<Rightarrow> (Inl e, w1')
         | Inr s3 \<Rightarrow> (Inr (set_objective_function s3 w1'), w1')) = (Inr s, w1)"
    by simp
  obtain s3 where s3: "add_constraints s2 w1' = Inr s3"
    and s: "s = set_objective_function s3 w1'" and w1: "w1 = w1'"
  proof (cases "add_constraints s2 w1'")
    case (Inl e)
    with r show ?thesis by simp
  next
    case (Inr s3)
    with r have "s = set_objective_function s3 w1'" "w1 = w1'" by auto
    with Inr that show ?thesis by blast
  qed
  note a = add_constraints_Inr [OF s3]
  have b: "\<forall>v. 0 \<le> lowBound s2 v \<and> upBound s2 v \<le> 1"
    by (simp add: s2_def initialize_variables_def)
  have pl: "players s w1 = players s2 w1'" "players s3 w1' = players s2 w1'"
    using a(5) by (simp_all add: s w1 players_def set_objective_function_def)
  have s2: "days s2 = [cfg_start_gameday ?cfg .. cfg_end_gameday ?cfg]"
    "start_gameday s2 = cfg_start_gameday ?cfg" "config s2 = ?cfg"
    "players_df s2 = players_df self" "games_df s2 = games_df self"
    "constraints (prob s2) = constraints (prob self)"
    "variables s2 = all_variables (players s2 w1') (days s2)"
    by (simp_all add: s2_def s1_def set_window_def initialize_variables_def players_def)
  have sf: "days s = days s3" "start_gameday s = start_gameday s3" "config s = config s3"
    "players_df s = players_df s3" "games_df s = games_df s3" "variables s = variables s3"
    "lowBound s = lowBound s3" "upBound s = upBound s3"
    "constraints (prob s) = constraints (prob s3)"
    by (simp_all add: s set_objective_function_def)
  show "days s = [cfg_start_gameday ?cfg .. cfg_end_gameday ?cfg]"
    using a(2) s2(1) sf(1) by simp
  show "start_gameday s = cfg_start_gameday ?cfg" using a(4) s2(2) sf(2) by simp
  show "config s = ?cfg" using a(3) s2(3) sf(3) by simp
  show "players_df s = players_df self" using a(5) s2(4) sf(4) by simp
  show "games_df s = games_df self" using a(6) s2(5) sf(5) by simp
  show "variables s = all_variables (players s w1) (days s)"
    using a(7) a(2) s2(7) sf(6) sf(1) pl(1) by simp
  show "\<forall>v. 0 \<le> lowBound s v \<and> upBound s v \<le> 1"
    using a(8) b sf(7,8) by simp
  have cg: "budget_constraints s df = budget_constraints s2 df"
    "transfer_constraints s df = transfer_constraints s2 df"
    "daily_constraints s df = daily_constraints s2 df"
    "team_constraints s df = team_constraints s2 df" for df
    by (rule lists_cong; simp add: sf a(2,3,4))+
  show "constraints (prob s) =
           constraints (prob self) @ [initial_count_constraint (players s w1)]
           @ budget_constraints s (players s w1)
           @ transfer_constraints s (players s w1)
           @ daily_constraints s (players s w1)
           @ team_constraints s (players s w1)"
    unfolding sf(9) a(1) s2(6) pl(1) cg ..
  show "objective (prob s) = Some (objective_function s (players s w1))"
  proof -
    have "objective (prob s) = Some (objective_function s3 (players s3 w1'))"
      by (simp add: s set_objective_function_def)
    moreover have "objective_function s3 df = objective_function s df" for df
      by (simp add: objective_function_def sf)
    ultimately show ?thesis by (simp add: pl)
  qed
qed

lemma sum_list_binary:
  assumes "\<forall>x\<in>set xs. f x = 0 \<or> f x = (1::int)"
  shows "(\<Sum>x\<leftarrow>xs. real_of_int (f x)) = real (length (filter (\<lambda>x. f x = 1) xs))"
  using assms by (induction xs) auto

text \<open>What a feasible assignment of the built model satisfies.\<close>

lemma feasible_parts:
  assumes m: "build_model self w = (Inr s, w1)" and f: "feasible s a"
  shows "\<forall>v\<in>set (all_variables (players s w1) (days s)). a v = 0 \<or> a v = 1"
    and "sat a (initial_count_constraint (players s w1))"
    and "list_all (sat a) (transfer_constraints s (players s w1))"
    and "list_all (sat a) (daily_constraints s (players s w1))"
proof -
  note b = build_model_Inr [OF m]
  from f have v: "\<forall>v\<in>set (variables s). lowBound s v \<le> a v \<and> a v \<le> upBound s v"
    and c: "\<forall>c\<in>set (constraints (prob s)). sat a c"
    by (simp_all add: feasible_def list_all_iff)
  show "\<forall>v\<in>set (all_variables (players s w1) (days s)). a v = 0 \<or> a v = 1"
  proof
    fix x assume "x \<in> set (all_variables (players s w1) (days s))"
    with v b(6) have "lowBound s x \<le> a x \<and> a x \<le> upBound s x" by simp
    moreover from b(7) have "0 \<le> lowBound s x \<and> upBound s x \<le> 1" by simp
    ultimately show "a x = 0 \<or> a x = 1" by linarith
  qed
  show "sat a (initial_count_constraint (players s w1))"
    using c unfolding b(8) by simp
  show "list_all (sat a) (transfer_constraints s (players s w1))"
    using c unfolding b(8) by (simp add: list_all_iff)
  show "list_all (sat a) (daily_constraints s (players s w1))"
    using c unfolding b(8) by (simp add: list_all_iff)
qed

lemma all_variables_mem:
  assumes "i < length df"
  shows "initial_squad i \<in> set (all_variables df ds)"
    and "d \<in> set ds \<Longrightarrow> squad_day i d \<in> set (all_variables df ds)"
    and "d \<in> set ds \<Longrightarrow> chosen_day i d \<in> set (all_variables df ds)"
    and "d \<in> set ds \<Longrightarrow> t_in i d \<in> set (all_variables df ds)"
    and "d \<in> set ds \<Longrightarrow> t_out i d \<in> set (all_variables df ds)"
    and "d \<in> set ds \<Longrightarrow> doubled_score i d \<in> set (all_variables df ds)"
  using assms
  by (auto simp: all_variables_def index_def keys2_def image_iff)

lemma daily_parts:
  assumes "list_all (sat a) (daily_constraints s df)" and "d \<in> set (days s)"
  shows "list_all (sat a) (lineup_constraints df d)"
    and "list_all (sat a) (squad_size_constraints df d)"
    and "list_all (sat a) (membership_constraints df d)"
  using assms by (auto simp: daily_constraints_def list_all_iff)

lemma count_of_sum:
  assumes "\<forall>i\<in>set xs. a (f i) = 0 \<or> a (f i) = 1"
    and "eval a (lpSum (map (\<lambda>i. Var (f i)) xs)) = real n"
  shows "length (filter (\<lambda>i. a (f i) = 1) xs) = n"
proof -
  have "eval a (lpSum (map (\<lambda>i. Var (f i)) xs)) = (\<Sum>i\<leftarrow>xs. real_of_int (a (f i)))"
    by (simp add: comp_def)
  also have "\<dots> = real (length (filter (\<lambda>i. a (f i) = 1) xs))"
    using assms(1) by (rule sum_list_binary)
  finally show ?thesis using assms(2) by simp
qed

lemma window_days:
  assumes m: "build_model self w = (Inr s, w1)"
  shows "d \<in> set (days s)
         \<longleftrightarrow> cfg_start_gameday (config self) \<le> d \<and> d \<le> cfg_end_gameday (config self)"
  using build_model_Inr(1) [OF m] by simp

lemma squad_type_counts:
  assumes m: "build_model self w = (Inr s, w1)" and f: "feasible s a"
    and d: "cfg_start_gameday (config self) \<le> d" "d \<le> cfg_end_gameday (config self)"
  shows "length (filter (\<lambda>i. element_type (players s w1 ! i) = 1) (squad_of a (players s w1) d)) = 5"
    and "length (filter (\<lambda>i. element_type (players s w1 ! i) = 2) (squad_of a (players s w1) d)) = 5"
proof -
  let ?df = "players s w1"
  note p = feasible_parts [OF m f]
  have dd: "d \<in> set (days s)" using d window_days [OF m] by simp
  note dp = daily_parts [OF p(4) dd]
  have bin: "a v = 0 \<or> a v = 1" if "v \<in> set (all_variables ?df (days s))" for v
    using p(1) that by blast
  have b3: "\<forall>i\<in>set (of_type ?df t). a (squad_day i d) = 0 \<or> a (squad_day i d) = 1" for t
    using bin all_variables_mem(2) dd by (auto simp: of_type_def index_def)
  have q: "eval a (lpSum (map (\<lambda>i. Var (squad_day i d)) (of_type ?df 1))) = real 5"
    "eval a (lpSum (map (\<lambda>i. Var (squad_day i d)) (of_type ?df 2))) = real 5"
    using dp(2) by (simp_all add: squad_size_constraints_def PLAYER_TYPE_COUNT_def comp_def)
  have sw: "length (filter (\<lambda>i. element_type (?df ! i) = t) (squad_of a ?df d))
          = length (filter (\<lambda>i. a (squad_day i d) = 1) (of_type ?df t))" for t
    by (simp add: squad_of_def of_type_def conj_commute)
  show "length (filter (\<lambda>i. element_type (?df ! i) = 1) (squad_of a ?df d)) = 5"
    unfolding sw using count_of_sum [OF b3 q(1)] .
  show "length (filter (\<lambda>i. element_type (?df ! i) = 2) (squad_of a ?df d)) = 5"
    unfolding sw using count_of_sum [OF b3 q(2)] .
qed

text \<open>
  Claim C6. In every assignment that is feasible for the built model, the initial squad
  has exactly 10 members, and on every day of the configured window the lineup has
  exactly 5 members and the squad holds exactly 5 players of position type 1 and exactly
  5 of position type 2.
\<close>

theorem squad_and_lineup_sizes:
  assumes m: "build_model self w = (Inr s, w1)" and f: "feasible s a"
    and d: "cfg_start_gameday (config self) \<le> d" "d \<le> cfg_end_gameday (config self)"
  shows "length (initial_squad_of a (players s w1)) = 10
       \<and> length (lineup_of a (players s w1) d) = 5
       \<and> length (filter (\<lambda>i. element_type (players s w1 ! i) = 1) (squad_of a (players s w1) d)) = 5
       \<and> length (filter (\<lambda>i. element_type (players s w1 ! i) = 2) (squad_of a (players s w1) d)) = 5"
proof -
  let ?df = "players s w1"
  note p = feasible_parts [OF m f]
  have dd: "d \<in> set (days s)" using d window_days [OF m] by simp
  note dp = daily_parts [OF p(4) dd]
  have bin: "a v = 0 \<or> a v = 1" if "v \<in> set (all_variables ?df (days s))" for v
    using p(1) that by blast
  have idx: "i < length ?df" if "i \<in> set (index ?df)" for i
    using that by (simp add: index_def)
  have b1: "\<forall>i\<in>set (index ?df). a (initial_squad i) = 0 \<or> a (initial_squad i) = 1"
    using bin all_variables_mem(1) idx by blast
  have b2: "\<forall>i\<in>set (index ?df). a (chosen_day i d) = 0 \<or> a (chosen_day i d) = 1"
    using bin all_variables_mem(3) idx dd by blast
  have "eval a (lpSum (map (\<lambda>i. Var (initial_squad i)) (index ?df))) = real 10"
    using p(2) by (simp add: initial_count_constraint_def INITIAL_PLAYERS_COUNT_def comp_def)
  from count_of_sum [OF b1 this]
  have c1: "length (initial_squad_of a ?df) = 10" by (simp add: initial_squad_of_def)
  have "eval a (lpSum (map (\<lambda>i. Var (chosen_day i d)) (index ?df))) = real 5"
    using dp(1) by (simp add: lineup_constraints_def TOTAL_PLAYERS_PER_DAY_def comp_def)
  from count_of_sum [OF b2 this]
  have c2: "length (lineup_of a ?df d) = 5" by (simp add: lineup_of_def)
  from c1 c2 squad_type_counts [OF m f d] show ?thesis by simp
qed

lemma membership_mem:
  assumes "i < length df"
  shows "LE (Var (chosen_day i d)) (Var (squad_day i d)) \<in> set (membership_constraints df d)"
    and "LE (Var (doubled_score i d)) (Var (chosen_day i d)) \<in> set (membership_constraints df d)"
  using assms by (auto simp: membership_constraints_def index_def)

text \<open>
  Claim C7. In every assignment that is feasible for the built model, on every day of the
  configured window exactly one player is captain, the captain is in that day's lineup,
  and every member of the lineup is in that day's squad.
\<close>

theorem captain_and_lineup_membership:
  assumes m: "build_model self w = (Inr s, w1)" and f: "feasible s a"
    and d: "cfg_start_gameday (config self) \<le> d" "d \<le> cfg_end_gameday (config self)"
  shows "(\<exists>c. captains_of a (players s w1) d = [c])
       \<and> set (captains_of a (players s w1) d) \<subseteq> set (lineup_of a (players s w1) d)
       \<and> set (lineup_of a (players s w1) d) \<subseteq> set (squad_of a (players s w1) d)"
proof -
  let ?df = "players s w1"
  note p = feasible_parts [OF m f]
  have dd: "d \<in> set (days s)" using d window_days [OF m] by simp
  note dp = daily_parts [OF p(4) dd]
  have bin: "a v = 0 \<or> a v = 1" if "v \<in> set (all_variables ?df (days s))" for v
    using p(1) that by blast
  have idx: "i < length ?df" if "i \<in> set (index ?df)" for i
    using that by (simp add: index_def)
  have b: "\<forall>i\<in>set (index ?df). a (doubled_score i d) = 0 \<or> a (doubled_score i d) = 1"
    using bin all_variables_mem(6) idx dd by blast
  have "eval a (lpSum (map (\<lambda>i. Var (doubled_score i d)) (index ?df))) = real 1"
    using dp(1) by (simp add: lineup_constraints_def comp_def)
  from count_of_sum [OF b this]
  have "length (captains_of a ?df d) = 1" by (simp add: captains_of_def)
  then have one: "\<exists>c. captains_of a ?df d = [c]"
    by (cases "captains_of a ?df d") auto
  have mem: "\<forall>c\<in>set (membership_constraints ?df d). sat a c"
    using dp(3) by (simp add: list_all_iff)
  have cap: "a (chosen_day i d) = 1" if "i < length ?df" "a (doubled_score i d) = 1" for i
  proof -
    from mem membership_mem(2) [OF that(1)]
    have "sat a (LE (Var (doubled_score i d)) (Var (chosen_day i d)))" by blast
    then have "a (doubled_score i d) \<le> a (chosen_day i d)" by simp
    moreover have "a (chosen_day i d) = 0 \<or> a (chosen_day i d) = 1"
      using bin all_variables_mem(3) [OF that(1) dd] by blast
    ultimately show ?thesis using that(2) by linarith
  qed
  have lin: "a (squad_day i d) = 1" if "i < length ?df" "a (chosen_day i d) = 1" for i
  proof -
    from mem membership_mem(1) [OF that(1)]
    have "sat a (LE (Var (chosen_day i d)) (Var (squad_day i d)))" by blast
    then have "a (chosen_day i d) \<le> a (squad_day i d)" by simp
    moreover have "a (squad_day i d) = 0 \<or> a (squad_day i d) = 1"
      using bin all_variables_mem(2) [OF that(1) dd] by blast
    ultimately show ?thesis using that(2) by linarith
  qed
  have s1: "set (captains_of a ?df d) \<subseteq> set (lineup_of a ?df d)"
    using cap by (auto simp: captains_of_def lineup_of_def index_def)
  have s2: "set (lineup_of a ?df d) \<subseteq> set (squad_of a ?df d)"
    using lin by (auto simp: lineup_of_def squad_of_def index_def)
  from one s1 s2 show ?thesis by blast
qed

lemma transfer_parts:
  assumes "list_all (sat a) (transfer_constraints s df)" "i < length df" "d \<in> set (days s)"
  shows "list_all (sat a) (transfer_limits s df)"
    and "list_all (sat a) (transfer_consistency s i d)"
  using assms by (auto simp: transfer_constraints_def list_all_iff index_def)

lemma zero_of_sum:
  assumes "\<forall>k\<in>set ks. a (f k) = 0 \<or> a (f k) = 1"
    and "eval a (lpSum (map (\<lambda>k. Var (f k)) ks)) \<le> 0"
    and "k \<in> set ks"
  shows "a (f k) = 0"
proof -
  have "eval a (lpSum (map (\<lambda>k. Var (f k)) ks)) = (\<Sum>k\<leftarrow>ks. real_of_int (a (f k)))"
    by (simp add: comp_def)
  also have "\<dots> = real (length (filter (\<lambda>k. a (f k) = 1) ks))"
    using assms(1) by (rule sum_list_binary)
  finally have "filter (\<lambda>k. a (f k) = 1) ks = []" using assms(2) by simp
  then have "a (f k) \<noteq> 1" using assms(3) by (simp add: filter_empty_conv)
  with assms(1,3) show ?thesis by blast
qed

text \<open>
  Claim C3. With a transfer limit of 0, every assignment that is feasible for the built
  model keeps the initial squad on every day of the window: \<open>squad_day[p,d]\<close> equals
  \<open>initial_squad[p]\<close> for every player and day, and every transfer variable is 0.
\<close>

theorem no_transfers_keeps_initial_squad:
  assumes m: "build_model self w = (Inr s, w1)" and f: "feasible s a"
    and z: "cfg_transfers (config self) = 0"
    and i: "i < length (players s w1)"
    and d: "cfg_start_gameday (config self) \<le> d" "d \<le> cfg_end_gameday (config self)"
  shows "a (squad_day i d) = a (initial_squad i) \<and> a (t_in i d) = 0 \<and> a (t_out i d) = 0"
proof -
  let ?df = "players s w1"
  let ?ks = "keys2 ?df (days s)"
  note b = build_model_Inr [OF m]
  note p = feasible_parts [OF m f]
  have bin: "a v = 0 \<or> a v = 1" if "v \<in> set (all_variables ?df (days s))" for v
    using p(1) that by blast
  have tz: "a (t_in i k) = 0 \<and> a (t_out i k) = 0" if k: "k \<in> set (days s)" for k
  proof -
    have mem: "(i, k) \<in> set ?ks" using i k by (simp add: keys2_mem)
    have lim: "list_all (sat a) (transfer_limits s ?df)"
      using transfer_parts(1) [OF p(3) i k] .
    have b1: "\<forall>x\<in>set ?ks. a (case x of (p, q) \<Rightarrow> t_in p q) = 0 \<or> a (case x of (p, q) \<Rightarrow> t_in p q) = 1"
    proof (clarify)
      fix p q assume n: "(p, q) \<in> set ?ks" "a (t_in p q) \<noteq> 1"
      then have "p < length ?df" "q \<in> set (days s)" by (simp_all add: keys2_mem)
      from bin [OF all_variables_mem(4) [OF this]] n(2) show "a (t_in p q) = 0" by simp
    qed
    have b2: "\<forall>x\<in>set ?ks. a (case x of (p, q) \<Rightarrow> t_out p q) = 0 \<or> a (case x of (p, q) \<Rightarrow> t_out p q) = 1"
    proof (clarify)
      fix p q assume n: "(p, q) \<in> set ?ks" "a (t_out p q) \<noteq> 1"
      then have "p < length ?df" "q \<in> set (days s)" by (simp_all add: keys2_mem)
      from bin [OF all_variables_mem(5) [OF this]] n(2) show "a (t_out p q) = 0" by simp
    qed
    have e1: "eval a (lpSum (map (\<lambda>x. Var (case x of (p, q) \<Rightarrow> t_in p q)) ?ks)) \<le> 0"
      using lim z b(3) by (simp add: transfer_limits_def comp_def case_prod_beta)
    have e2: "eval a (lpSum (map (\<lambda>x. Var (case x of (p, q) \<Rightarrow> t_out p q)) ?ks)) \<le> 0"
      using lim z b(3) by (simp add: transfer_limits_def comp_def case_prod_beta)
    from zero_of_sum [OF b1 e1 mem] zero_of_sum [OF b2 e2 mem] show ?thesis by simp
  qed
  have step: "a (squad_day i k)
              = a (if k = start_gameday s then initial_squad i else squad_day i (k - 1))"
    if k: "k \<in> set (days s)" for k
  proof -
    have "list_all (sat a) (transfer_consistency s i k)"
      using transfer_parts(2) [OF p(3) i k] .
    then show ?thesis
      using tz [OF k] by (simp add: transfer_consistency_def split: if_splits)
  qed
  have chain: "k \<le> cfg_end_gameday (config self) \<longrightarrow> a (squad_day i k) = a (initial_squad i)"
    if "cfg_start_gameday (config self) \<le> k" for k
    using that
  proof (induction k rule: int_ge_induct)
    case base
    show ?case using step [of "cfg_start_gameday (config self)"] b(1,2) by simp
  next
    case (step k)
    show ?case
    proof
      assume le: "k + 1 \<le> cfg_end_gameday (config self)"
      then have "k + 1 \<in> set (days s)" using step.hyps b(1) by simp
      from \<open>\<And>k. k \<in> set (days s) \<Longrightarrow> a (squad_day i k)
              = a (if k = start_gameday s then initial_squad i else squad_day i (k - 1))\<close> [OF this]
      have "a (squad_day i (k + 1)) = a (squad_day i k)"
        using step.hyps b(2) by simp
      with step.IH le show "a (squad_day i (k + 1)) = a (initial_squad i)" by simp
    qed
  qed
  have dd: "d \<in> set (days s)" using d b(1) by simp
  from chain [OF d(1)] d(2) tz [OF dd] show ?thesis by simp
qed

subsection \<open>The small league is feasible\<close>

lemma ex_index: "index ex_players = [0, 1, 2, 3, 4, 5, 6, 7, 8, 9]"
  by (simp add: index_def ex_players_def upt_rec)

lemma ex_nth:
  "ex_players ! 0 = mk_player ''P0'' 10 1 0 30" "ex_players ! 1 = mk_player ''P1'' 10 1 0 28"
  "ex_players ! 2 = mk_player ''P2'' 10 1 1 26" "ex_players ! 3 = mk_player ''P3'' 10 1 1 24"
  "ex_players ! 4 = mk_player ''P4'' 10 1 2 22" "ex_players ! 5 = mk_player ''P5'' 10 2 2 20"
  "ex_players ! 6 = mk_player ''P6'' 10 2 3 18" "ex_players ! 7 = mk_player ''P7'' 10 2 3 16"
  "ex_players ! 8 = mk_player ''P8'' 10 2 4 14" "ex_players ! 9 = mk_player ''P9'' 10 2 4 12"
  "ex_players ! Suc 0 = mk_player ''P1'' 10 1 0 28"
  by (simp_all add: ex_players_def)

lemma ex_self_fields:
  "days ex_self = [1, 2]" "start_gameday ex_self = 1" "config ex_self = ex_config"
  by (simp_all add: ex_self_def set_window_def ex_optimizer_def NBAFantasyOptimizer_def
        ex_config_def upto_rec1)

lemma ex_sat_initial: "sat ex_assignment (initial_count_constraint ex_players)"
  by (simp add: initial_count_constraint_def ex_index INITIAL_PLAYERS_COUNT_def)

lemma ex_sat_budget: "list_all (sat ex_assignment) (budget_constraints ex_self ex_players)"
  by (simp add: budget_constraints_def ex_index ex_self_fields ex_nth mk_player_def ex_config_def)

lemma ex_keys2: "keys2 ex_players [1, 2] =
   [(0,1),(0,2),(1,1),(1,2),(2,1),(2,2),(3,1),(3,2),(4,1),(4,2),
    (5,1),(5,2),(6,1),(6,2),(7,1),(7,2),(8,1),(8,2),(9,1),(9,2)]"
  by (simp add: keys2_def ex_index)

lemma ex_sat_transfer: "list_all (sat ex_assignment) (transfer_constraints ex_self ex_players)"
  by (simp add: transfer_constraints_def transfer_limits_def transfer_consistency_def
        ex_index ex_keys2 ex_self_fields ex_config_def)

lemma ex_of_type:
  "of_type ex_players 1 = [0, 1, 2, 3, 4]" "of_type ex_players 2 = [5, 6, 7, 8, 9]"
  by (simp_all add: of_type_def ex_index ex_nth mk_player_def)

lemma ex_sat_daily: "list_all (sat ex_assignment) (daily_constraints ex_self ex_players)"
  by (simp add: daily_constraints_def lineup_constraints_def squad_size_constraints_def
        membership_constraints_def ex_index ex_of_type ex_self_fields
        MIN_PLAYER_TYPE_COUNT_def TOTAL_PLAYERS_PER_DAY_def PLAYER_TYPE_COUNT_def)

lemma ex_teams: "unique (map team ex_players) = [0, 1, 2, 3, 4]"
  by (simp add: unique_def ex_players_def mk_player_def)

lemma ex_sat_team: "list_all (sat ex_assignment) (team_constraints ex_self ex_players)"
  by (simp add: team_constraints_def ex_teams ex_index ex_nth mk_player_def ex_self_fields
        MAX_PLAYERS_FROM_SAME_TEAM_def)

lemma first_index_ok:
  assumes "nm \<in> name ` set df"
  shows "\<exists>i. first_index df nm = Inr i \<and> i < length df \<and> name (df ! i) = nm"
proof -
  from assms obtain j where j: "j < length df" "name (df ! j) = nm"
    by (auto simp: in_set_conv_nth)
  then have "j \<in> set (filter (\<lambda>i. name (df ! i) = nm) (index df))"
    by (simp add: index_def)
  then obtain i rest where e: "filter (\<lambda>i. name (df ! i) = nm) (index df) = i # rest"
    by (cases "filter (\<lambda>i. name (df ! i) = nm) (index df)") auto
  then have "i \<in> set (filter (\<lambda>i. name (df ! i) = nm) (index df))" by simp
  then have "i < length df \<and> name (df ! i) = nm" by (simp add: index_def)
  with e show ?thesis by (simp add: first_index_def)
qed

lemma first_index_missing:
  assumes "nm \<notin> name ` set df"
  shows "first_index df nm = Inl IndexError"
proof -
  have "filter (\<lambda>i. name (df ! i) = nm) (index df) = []"
    using assms by (auto simp: filter_empty_conv index_def)
  then show ?thesis by (simp add: first_index_def)
qed

lemma fix_initial_ok:
  assumes "set nms \<subseteq> name ` set df"
  shows "\<exists>s. fix_initial df nms self = Inr s"
  using assms
proof (induction nms arbitrary: self)
  case Nil
  show ?case by simp
next
  case (Cons nm nms)
  from Cons.prems have "nm \<in> name ` set df" by simp
  from first_index_ok [OF this] obtain i where "first_index df nm = Inr i" by blast
  moreover from Cons.prems have "set nms \<subseteq> name ` set df" by simp
  ultimately show ?case using Cons.IH by simp
qed

lemma first_index_Inr:
  assumes "first_index df nm = Inr i"
  shows "i < length df \<and> name (df ! i) = nm"
proof -
  from assms obtain rest where "filter (\<lambda>i. name (df ! i) = nm) (index df) = i # rest"
    by (auto simp: first_index_def split: list.splits)
  then have "i \<in> set (filter (\<lambda>i. name (df ! i) = nm) (index df))" by simp
  then show ?thesis by (simp add: index_def)
qed

lemma fix_initial_low_up:
  assumes "fix_initial df nms self = Inr s"
    and "\<forall>v. upBound self v = 1"
    and "\<forall>v. lowBound self v = 0
            \<or> (\<exists>i. v = initial_squad i \<and> i < length df \<and> name (df ! i) \<in> N
                    \<and> lowBound self v = 1)"
    and "set nms \<subseteq> N"
  shows "(\<forall>v. upBound s v = 1)
       \<and> (\<forall>v. lowBound s v = 0
              \<or> (\<exists>i. v = initial_squad i \<and> i < length df \<and> name (df ! i) \<in> N
                      \<and> lowBound s v = 1))"
  using assms
proof (induction nms arbitrary: self)
  case Nil
  then show ?case by simp
next
  case (Cons nm nms)
  from Cons.prems(1) obtain i where i: "first_index df nm = Inr i"
    and r: "fix_initial df nms
              (self\<lparr> upBound := (upBound self)(initial_squad i := 1),
                     lowBound := (lowBound self)(initial_squad i := 1) \<rparr>) = Inr s"
    by (auto split: sum.splits)
  from first_index_Inr [OF i] Cons.prems(4)
  have n: "i < length df" "name (df ! i) \<in> N" by auto
  show ?case
  proof (rule Cons.IH [OF r])
    show "\<forall>v. upBound (self\<lparr> upBound := (upBound self)(initial_squad i := 1),
                     lowBound := (lowBound self)(initial_squad i := 1) \<rparr>) v = 1"
      using Cons.prems(2) by simp
    show "\<forall>v. lowBound (self\<lparr> upBound := (upBound self)(initial_squad i := 1),
                     lowBound := (lowBound self)(initial_squad i := 1) \<rparr>) v = 0
             \<or> (\<exists>j. v = initial_squad j \<and> j < length df \<and> name (df ! j) \<in> N
                  \<and> lowBound (self\<lparr> upBound := (upBound self)(initial_squad i := 1),
                     lowBound := (lowBound self)(initial_squad i := 1) \<rparr>) v = 1)"
      using Cons.prems(3) n by auto
    show "set nms \<subseteq> N" using Cons.prems(4) by simp
  qed
qed

lemma add_constraints_low_up:
  assumes "add_constraints self w = Inr s"
    and "\<forall>v. upBound self v = 1"
    and "\<forall>v. lowBound self v = 0"
  shows "(\<forall>v. upBound s v = 1)
       \<and> (\<forall>v. lowBound s v = 0
              \<or> (\<exists>i. v = initial_squad i \<and> i < length (players self w)
                      \<and> name (players self w ! i) \<in> set (cfg_initial_squad (config self))
                      \<and> lowBound s v = 1))"
proof -
  let ?df = "players self w"
  let ?s0 = "add_all [initial_count_constraint ?df] self"
  obtain s1 where s1: "fix_initial ?df (cfg_initial_squad (config self)) ?s0 = Inr s1"
    and s: "s = add_team_constraints
                (add_daily_constraints
                  (add_transfer_constraints (add_budget_constraints s1 w) w) w) w"
    using assms(1)
    by (auto simp: add_constraints_def add_initial_player_constraints_def Let_def
          split: sum.splits)
  have "(\<forall>v. upBound s1 v = 1)
       \<and> (\<forall>v. lowBound s1 v = 0
              \<or> (\<exists>i. v = initial_squad i \<and> i < length ?df
                      \<and> name (?df ! i) \<in> set (cfg_initial_squad (config self))
                      \<and> lowBound s1 v = 1))"
    by (rule fix_initial_low_up [OF s1]) (use assms(2,3) in auto)
  then show ?thesis
    by (simp add: s add_team_constraints_def add_daily_constraints_def
          add_transfer_constraints_def add_budget_constraints_def)
qed

lemma build_model_unfold:
  "build_model self w =
     (case add_constraints
             (initialize_variables (set_window self) (adjust_player_points (set_window self) w))
             (adjust_player_points (set_window self) w) of
        Inl e \<Rightarrow> (Inl e, adjust_player_points (set_window self) w)
      | Inr s3 \<Rightarrow>
          (Inr (set_objective_function s3 (adjust_player_points (set_window self) w)),
           adjust_player_points (set_window self) w))"
proof (cases "cfg_player_points_adjustments (config (set_window self))")
  case None
  then have a: "adjust_player_points (set_window self) w = w"
    by (simp add: adjust_player_points_def)
  from None show ?thesis unfolding a by (simp add: build_model_def Let_def)
next
  case (Some items)
  then show ?thesis by (simp add: build_model_def Let_def)
qed

lemma set_window_fields [simp]:
  "config (set_window self) = config self"
  "players_df (set_window self) = players_df self"
  "players (set_window self) w = players self w"
  by (simp_all add: set_window_def players_def)

lemma build_model_snd: "snd (build_model self w) = adjust_player_points (set_window self) w"
  unfolding build_model_unfold
  by (cases "add_constraints
               (initialize_variables (set_window self) (adjust_player_points (set_window self) w))
               (adjust_player_points (set_window self) w)") simp_all

lemma build_model_low_up:
  assumes m: "build_model self w = (Inr s, w1)"
  shows "(\<forall>v. upBound s v = 1)
       \<and> (\<forall>v. lowBound s v = 0
              \<or> (\<exists>i. v = initial_squad i \<and> i < length (players self w1)
                      \<and> name (players self w1 ! i) \<in> set (cfg_initial_squad (config self))
                      \<and> lowBound s v = 1))"
proof -
  let ?w = "adjust_player_points (set_window self) w"
  let ?s2 = "initialize_variables (set_window self) ?w"
  have w1: "w1 = ?w" using m build_model_snd [of self w] by simp
  obtain s3 where s3: "add_constraints ?s2 ?w = Inr s3"
    and s: "s = set_objective_function s3 ?w"
  proof (cases "add_constraints ?s2 ?w")
    case (Inl e)
    with m show ?thesis unfolding build_model_unfold by simp
  next
    case (Inr s3)
    with m have "s = set_objective_function s3 ?w" unfolding build_model_unfold by auto
    with Inr that show ?thesis by blast
  qed
  have p: "players ?s2 ?w = players self ?w" "config ?s2 = config self"
    by (simp_all add: players_def initialize_variables_def set_window_def)
  have "(\<forall>v. upBound s3 v = 1)
       \<and> (\<forall>v. lowBound s3 v = 0
              \<or> (\<exists>i. v = initial_squad i \<and> i < length (players ?s2 ?w)
                      \<and> name (players ?s2 ?w ! i) \<in> set (cfg_initial_squad (config ?s2))
                      \<and> lowBound s3 v = 1))"
    by (rule add_constraints_low_up [OF s3]) (simp_all add: initialize_variables_def)
  then show ?thesis unfolding p w1 by (simp add: s set_objective_function_def)
qed

lemma build_model_ok:
  assumes "set (cfg_initial_squad (config self))
           \<subseteq> name ` set (players self (adjust_player_points (set_window self) w))"
  shows "\<exists>s. build_model self w = (Inr s, adjust_player_points (set_window self) w)"
proof -
  let ?w = "adjust_player_points (set_window self) w"
  let ?s2 = "initialize_variables (set_window self) ?w"
  have p: "players ?s2 ?w = players self ?w" "config ?s2 = config self"
    by (simp_all add: players_def initialize_variables_def set_window_def)
  from fix_initial_ok [OF assms]
  obtain s1 where "fix_initial (players self ?w) (cfg_initial_squad (config self))
                     (add_all [initial_count_constraint (players self ?w)] ?s2) = Inr s1"
    by blast
  then have "\<exists>s3. add_constraints ?s2 ?w = Inr s3"
    by (simp add: add_constraints_def add_initial_player_constraints_def Let_def p)
  then obtain s3 where "add_constraints ?s2 ?w = Inr s3" by blast
  then show ?thesis unfolding build_model_unfold by simp
qed

lemma ex_adjust: "adjust_player_points (set_window ex_optimizer) ex_world = ex_world"
  by (simp add: adjust_player_points_def set_window_def ex_optimizer_def
        NBAFantasyOptimizer_def ex_config_def)

lemma ex_players_of: "players ex_optimizer ex_world = ex_players"
  by (simp add: players_def ex_optimizer_def NBAFantasyOptimizer_def ex_world_def)

lemma ex_build: "\<exists>s. build_model ex_optimizer ex_world = (Inr s, ex_world)"
proof -
  have "set (cfg_initial_squad (config ex_optimizer))
        \<subseteq> name ` set (players ex_optimizer (adjust_player_points (set_window ex_optimizer) ex_world))"
    unfolding ex_adjust ex_players_of
    by (simp add: ex_optimizer_def NBAFantasyOptimizer_def ex_config_def ex_players_def
          mk_player_def)
  from build_model_ok [OF this] show ?thesis by (simp add: ex_adjust)
qed

lemma ex_assignment_range: "0 \<le> ex_assignment v \<and> ex_assignment v \<le> 1"
  by (cases v) simp_all

lemma ex_feasible:
  assumes m: "build_model ex_optimizer ex_world = (Inr s, ex_world)"
  shows "feasible s ex_assignment" and "players s ex_world = ex_players"
proof -
  note b = build_model_Inr [OF m]
  note lu = build_model_low_up [OF m]
  have cfg: "config s = ex_config" "players_df s = 0"
    using b(3,4) by (simp_all add: ex_optimizer_def NBAFantasyOptimizer_def)
  show pl: "players s ex_world = ex_players"
    using cfg(2) by (simp add: players_def ex_world_def)
  have f: "days s = days ex_self" "config s = config ex_self"
    "start_gameday s = start_gameday ex_self"
    using b(1,2,3)
    by (simp_all add: ex_self_fields ex_optimizer_def NBAFantasyOptimizer_def ex_config_def
          upto_rec1)
  have cs: "constraints (prob s) =
             [initial_count_constraint ex_players]
           @ budget_constraints ex_self ex_players
           @ transfer_constraints ex_self ex_players
           @ daily_constraints ex_self ex_players
           @ team_constraints ex_self ex_players"
    unfolding b(8) pl lists_cong [OF f]
    by (simp add: ex_optimizer_def NBAFantasyOptimizer_def)
  have bound: "lowBound s v \<le> ex_assignment v \<and> ex_assignment v \<le> upBound s v" for v
  proof -
    from lu have u: "upBound s v = 1"
      and l: "lowBound s v = 0 \<or> (\<exists>i. v = initial_squad i \<and> lowBound s v = 1)"
      by blast+
    from l show ?thesis using u ex_assignment_range [of v] by auto
  qed
  show "feasible s ex_assignment"
    unfolding feasible_def cs
    using bound ex_sat_initial ex_sat_budget ex_sat_transfer ex_sat_daily ex_sat_team
    by (auto simp: list_all_iff)
qed

theorem squad_and_lineup_sizes_witness:
  "\<exists>s. build_model ex_optimizer ex_world = (Inr s, ex_world)
      \<and> feasible s ex_assignment
      \<and> cfg_start_gameday (config ex_optimizer) \<le> 2
      \<and> 2 \<le> cfg_end_gameday (config ex_optimizer)
      \<and> length (initial_squad_of ex_assignment (players s ex_world)) = 10
      \<and> length (lineup_of ex_assignment (players s ex_world) 2) = 5
      \<and> length (filter (\<lambda>i. element_type (players s ex_world ! i) = 1)
                   (squad_of ex_assignment (players s ex_world) 2)) = 5
      \<and> length (filter (\<lambda>i. element_type (players s ex_world ! i) = 2)
                   (squad_of ex_assignment (players s ex_world) 2)) = 5"
proof -
  from ex_build obtain s where m: "build_model ex_optimizer ex_world = (Inr s, ex_world)" ..
  have f: "feasible s ex_assignment" using ex_feasible(1) [OF m] .
  have d: "cfg_start_gameday (config ex_optimizer) \<le> 2"
    "2 \<le> cfg_end_gameday (config ex_optimizer)"
    by (simp_all add: ex_optimizer_def NBAFantasyOptimizer_def ex_config_def)
  from squad_and_lineup_sizes [OF m f d] m f d show ?thesis by blast
qed

theorem captain_and_lineup_membership_witness:
  "\<exists>s. build_model ex_optimizer ex_world = (Inr s, ex_world)
      \<and> feasible s ex_assignment
      \<and> cfg_start_gameday (config ex_optimizer) \<le> 1
      \<and> 1 \<le> cfg_end_gameday (config ex_optimizer)
      \<and> (\<exists>c. captains_of ex_assignment (players s ex_world) 1 = [c])
      \<and> set (captains_of ex_assignment (players s ex_world) 1)
          \<subseteq> set (lineup_of ex_assignment (players s ex_world) 1)
      \<and> set (lineup_of ex_assignment (players s ex_world) 1)
          \<subseteq> set (squad_of ex_assignment (players s ex_world) 1)"
proof -
  from ex_build obtain s where m: "build_model ex_optimizer ex_world = (Inr s, ex_world)" ..
  have f: "feasible s ex_assignment" using ex_feasible(1) [OF m] .
  have d: "cfg_start_gameday (config ex_optimizer) \<le> 1"
    "1 \<le> cfg_end_gameday (config ex_optimizer)"
    by (simp_all add: ex_optimizer_def NBAFantasyOptimizer_def ex_config_def)
  from captain_and_lineup_membership [OF m f d] m f d show ?thesis by blast
qed

theorem no_transfers_keeps_initial_squad_witness:
  "\<exists>s. build_model ex_optimizer ex_world = (Inr s, ex_world)
      \<and> feasible s ex_assignment
      \<and> cfg_transfers (config ex_optimizer) = 0
      \<and> 3 < length (players s ex_world)
      \<and> cfg_start_gameday (config ex_optimizer) \<le> 2
      \<and> 2 \<le> cfg_end_gameday (config ex_optimizer)
      \<and> ex_assignment (squad_day 3 2) = ex_assignment (initial_squad 3)
      \<and> ex_assignment (t_in 3 2) = 0 \<and> ex_assignment (t_out 3 2) = 0"
proof -
  from ex_build obtain s where m: "build_model ex_optimizer ex_world = (Inr s, ex_world)" ..
  have f: "feasible s ex_assignment" using ex_feasible(1) [OF m] .
  have z: "cfg_transfers (config ex_optimizer) = 0"
    by (simp add: ex_optimizer_def NBAFantasyOptimizer_def ex_config_def)
  have i: "3 < length (players s ex_world)"
    unfolding ex_feasible(2) [OF m] by (simp add: ex_players_def)
  have d: "cfg_start_gameday (config ex_optimizer) \<le> 2"
    "2 \<le> cfg_end_gameday (config ex_optimizer)"
    by (simp_all add: ex_optimizer_def NBAFantasyOptimizer_def ex_config_def)
  from no_transfers_keeps_initial_squad [OF m f z i d] m f z i d show ?thesis by blast
qed

subsection \<open>The objective\<close>

lemma sum_keys2:
  "(\<Sum>(i, d)\<leftarrow>keys2 df ds. f i d) = (\<Sum>i\<leftarrow>index df. \<Sum>d\<leftarrow>ds. f i d)"
proof -
  have "(\<Sum>(i, d)\<leftarrow>concat (map (\<lambda>i. map (\<lambda>d. (i, d)) ds) xs). f i d)
        = (\<Sum>i\<leftarrow>xs. \<Sum>d\<leftarrow>ds. f i d)" for xs :: "nat list"
    by (induction xs) (simp_all add: comp_def)
  then show ?thesis by (simp add: keys2_def)
qed

lemma player_points_for_day_fixture:
  "player_points_for_day df gdf i d
     = (if has_fixture gdf (team (df ! i)) d then points_per_game (df ! i) else 0)"
proof -
  have "(team (df ! i) \<in> set (map team_h (filter (\<lambda>g. event g = d) gdf))
         \<or> team (df ! i) \<in> set (map team_a (filter (\<lambda>g. event g = d) gdf)))
        \<longleftrightarrow> has_fixture gdf (team (df ! i)) d"
    unfolding has_fixture_def by (auto simp: image_def)
  then show ?thesis by (simp add: player_points_for_day_def Let_def)
qed

lemma eval_objective_function:
  "eval a (objective_function self df)
   = (\<Sum>p\<leftarrow>[0..<length df]. \<Sum>k\<leftarrow>days self.
        player_points_for_day df (games_df self) p k
        * (real_of_int (a (chosen_day p k)) + real_of_int (a (doubled_score p k))))"
proof -
  have "eval a (objective_function self df)
        = (\<Sum>(p, k)\<leftarrow>keys2 df (days self). eval a (objective_term df (games_df self) p k))"
    unfolding objective_function_def eval.simps map_map
    by (rule arg_cong [where f = sum_list]) (simp add: comp_def case_prod_beta)
  also have "\<dots> = (\<Sum>p\<leftarrow>index df. \<Sum>k\<leftarrow>days self.
                      eval a (objective_term df (games_df self) p k))"
    by (rule sum_keys2)
  finally show ?thesis by (simp add: objective_term_def index_def)
qed

text \<open>
  Claim C1. In the model that a run builds, the coefficient \<^verbatim>\<open>player_points_for_day\<close>
  gives a player and a day is the player's \<open>points_per_game\<close> if the schedule has a game
  on that day with the player's team at home or away, and zero otherwise; the objective
  that \<^verbatim>\<open>set_objective_function\<close> has set is the sum, over every player of the table and
  every day from the configured start day to the configured end day, of this coefficient
  times \<open>lineup_day + captain_day\<close>, so that a lineup member who is not captain earns the
  points once and the captain earns them twice.
\<close>

theorem objective_is_points_times_lineup_and_captain:
  assumes m: "build_model self w = (Inr s, w1)"
  shows "(\<forall>p k. player_points_for_day (players s w1) (games_df self) p k
            = (if has_fixture (games_df self) (team (players s w1 ! p)) k
               then points_per_game (players s w1 ! p) else 0))
   \<and> (\<exists>obj. objective (prob s) = Some obj
        \<and> (\<forall>a. eval a obj
               = (\<Sum>p\<leftarrow>[0..<length (players s w1)].
                   \<Sum>k\<leftarrow>[cfg_start_gameday (config self) .. cfg_end_gameday (config self)].
                    player_points_for_day (players s w1) (games_df self) p k
                    * (real_of_int (a (chosen_day p k)) + real_of_int (a (doubled_score p k))))))
   \<and> (\<forall>a p k. a (chosen_day p k) = 1 \<and> a (doubled_score p k) = 0
          \<longrightarrow> eval a (objective_term (players s w1) (games_df self) p k)
              = player_points_for_day (players s w1) (games_df self) p k)
   \<and> (\<forall>a p k. a (chosen_day p k) = 1 \<and> a (doubled_score p k) = 1
          \<longrightarrow> eval a (objective_term (players s w1) (games_df self) p k)
              = 2 * player_points_for_day (players s w1) (games_df self) p k)"
proof -
  let ?df = "players s w1"
  note b = build_model_Inr [OF m]
  have c1: "\<forall>p k. player_points_for_day ?df (games_df self) p k
            = (if has_fixture (games_df self) (team (?df ! p)) k
               then points_per_game (?df ! p) else 0)"
    using player_points_for_day_fixture by blast
  have o: "objective (prob s) = Some (objective_function s ?df)" using b(9) .
  have e: "eval a (objective_function s ?df)
           = (\<Sum>p\<leftarrow>[0..<length ?df].
               \<Sum>k\<leftarrow>[cfg_start_gameday (config self) .. cfg_end_gameday (config self)].
                player_points_for_day ?df (games_df self) p k
                * (real_of_int (a (chosen_day p k)) + real_of_int (a (doubled_score p k))))" for a
    unfolding eval_objective_function b(1) b(5) ..
  have c3: "\<forall>a p k. a (chosen_day p k) = 1 \<and> a (doubled_score p k) = 0
          \<longrightarrow> eval a (objective_term ?df (games_df self) p k)
              = player_points_for_day ?df (games_df self) p k"
    by (simp add: objective_term_def)
  have c4: "\<forall>a p k. a (chosen_day p k) = 1 \<and> a (doubled_score p k) = 1
          \<longrightarrow> eval a (objective_term ?df (games_df self) p k)
              = 2 * player_points_for_day ?df (games_df self) p k"
    by (simp add: objective_term_def)
  from c1 o e c3 c4 show ?thesis by blast
qed

lemma ex_points:
  "player_points_for_day ex_players ex_games p 1
     = (if p \<in> {0, 1, 2, 3} then points_per_game (ex_players ! p) else 0)"
  "player_points_for_day ex_players ex_games p 2
     = (if p \<in> {4, 5, 6, 7} then points_per_game (ex_players ! p) else 0)"
  if "p < 10"
proof -
  from that have "p \<in> {0, 1, 2, 3, 4, 5, 6, 7, 8, 9}" by auto
  then show "player_points_for_day ex_players ex_games p 1
     = (if p \<in> {0, 1, 2, 3} then points_per_game (ex_players ! p) else 0)"
    "player_points_for_day ex_players ex_games p 2
     = (if p \<in> {4, 5, 6, 7} then points_per_game (ex_players ! p) else 0)"
    by (auto simp: player_points_for_day_def ex_games_def ex_nth mk_player_def)
qed

theorem objective_is_points_times_lineup_and_captain_witness:
  "\<exists>s. build_model ex_optimizer ex_world = (Inr s, ex_world)
      \<and> player_points_for_day (players s ex_world) (games_df ex_optimizer) 0 1 = 30
      \<and> player_points_for_day (players s ex_world) (games_df ex_optimizer) 0 2 = 0
      \<and> (\<exists>obj. objective (prob s) = Some obj \<and> eval ex_assignment obj = 142)
      \<and> ex_assignment (chosen_day 0 1) = 1 \<and> ex_assignment (doubled_score 0 1) = 1
      \<and> eval ex_assignment (objective_term (players s ex_world) (games_df ex_optimizer) 0 1) = 60
      \<and> ex_assignment (chosen_day 1 1) = 1 \<and> ex_assignment (doubled_score 1 1) = 0
      \<and> eval ex_assignment (objective_term (players s ex_world) (games_df ex_optimizer) 1 1) = 28"
proof -
  from ex_build obtain s where m: "build_model ex_optimizer ex_world = (Inr s, ex_world)" ..
  note t = objective_is_points_times_lineup_and_captain [OF m]
  have pl: "players s ex_world = ex_players" using ex_feasible(2) [OF m] .
  have g: "games_df ex_optimizer = ex_games"
    "cfg_start_gameday (config ex_optimizer) = 1" "cfg_end_gameday (config ex_optimizer) = 2"
    by (simp_all add: ex_optimizer_def NBAFantasyOptimizer_def ex_config_def)
  have f: "has_fixture ex_games (team (ex_players ! 0)) 1"
    "\<not> has_fixture ex_games (team (ex_players ! 0)) 2"
    "has_fixture ex_games (team (ex_players ! 1)) 1"
    by (simp_all add: has_fixture_def ex_games_def ex_nth mk_player_def)
  note c1 = t [THEN conjunct1, rule_format, unfolded pl g]
  have v0: "player_points_for_day ex_players ex_games 0 1 = 30"
    unfolding c1 using f(1) by (simp add: ex_nth mk_player_def)
  have v1: "player_points_for_day ex_players ex_games 0 2 = 0"
    unfolding c1 using f(2) by simp
  have v2: "player_points_for_day ex_players ex_games 1 1 = 28"
    unfolding c1 using f(3) by (simp add: ex_nth mk_player_def)
  from t [THEN conjunct2, THEN conjunct1] obtain obj where
    o: "objective (prob s) = Some obj"
    and e: "\<And>a. eval a obj
               = (\<Sum>p\<leftarrow>[0..<length (players s ex_world)].
                   \<Sum>k\<leftarrow>[cfg_start_gameday (config ex_optimizer) .. cfg_end_gameday (config ex_optimizer)].
                    player_points_for_day (players s ex_world) (games_df ex_optimizer) p k
                    * (real_of_int (a (chosen_day p k)) + real_of_int (a (doubled_score p k))))"
    by blast
  have len: "[0..<length ex_players] = [0, 1, 2, 3, 4, 5, 6, 7, 8, 9]"
    using ex_index by (simp add: index_def)
  have "eval ex_assignment obj = 142"
    unfolding e pl g len by (simp add: upto_rec1 ex_points ex_nth mk_player_def)
  with o have ob: "\<exists>obj. objective (prob s) = Some obj \<and> eval ex_assignment obj = 142" by blast
  have a: "ex_assignment (chosen_day 0 1) = 1 \<and> ex_assignment (doubled_score 0 1) = 1"
    "ex_assignment (chosen_day 1 1) = 1 \<and> ex_assignment (doubled_score 1 1) = 0"
    by simp_all
  have e0: "eval ex_assignment (objective_term ex_players ex_games 0 1) = 60"
    using t [THEN conjunct2, THEN conjunct2, THEN conjunct2, rule_format, OF a(1)] v0
    unfolding pl g by simp
  have e2: "eval ex_assignment (objective_term ex_players ex_games 1 1) = 28"
    using t [THEN conjunct2, THEN conjunct2, THEN conjunct1, rule_format, OF a(2)] v2
    unfolding pl g by simp
  show ?thesis
    by (rule exI [of _ s]) (use m v0 v1 ob a e0 e2 in \<open>simp add: pl g\<close>)
qed

subsection \<open>The transfer constraints\<close>

lemma elem_le_sum_list:
  fixes xs :: "real list"
  assumes "\<forall>y\<in>set xs. 0 \<le> y" and "x \<in> set xs"
  shows "x \<le> sum_list xs"
  using assms
proof (induction xs)
  case Nil
  then show ?case by simp
next
  case (Cons y ys)
  from Cons.prems(1) have nn: "0 \<le> y" "0 \<le> sum_list ys"
    by (simp_all add: sum_list_nonneg)
  show ?case
  proof (cases "x = y")
    case True
    with nn show ?thesis by simp
  next
    case False
    with Cons.prems have "x \<in> set ys" "\<forall>y\<in>set ys. 0 \<le> y" by simp_all
    from Cons.IH [OF this(2) this(1)] nn show ?thesis by simp
  qed
qed

lemma eval_lpSum_keys:
  "eval a (lpSum (map (\<lambda>(p, k). Var (f p k)) (keys2 df ds)))
   = (\<Sum>p\<leftarrow>[0..<length df]. \<Sum>k\<leftarrow>ds. real_of_int (a (f p k)))"
proof -
  have "eval a (lpSum (map (\<lambda>(p, k). Var (f p k)) ks))
        = (\<Sum>(p, k)\<leftarrow>ks. real_of_int (a (f p k)))" for ks
    by (induction ks) auto
  then show ?thesis by (simp add: sum_keys2 index_def)
qed

lemma transfer_rows_emitted:
  assumes i: "i < length (players self w)" and d: "d \<in> set (days self)"
  shows "\<exists>emitted prev ins outs.
       constraints (prob (add_transfer_constraints self w)) = constraints (prob self) @ emitted
     \<and> prev = (if d = start_gameday self then initial_squad i else squad_day i (d - 1))
     \<and> GE (Var (t_in i d)) (Sub (Var (squad_day i d)) (Var prev)) \<in> set emitted
     \<and> GE (Var (t_out i d)) (Sub (Var prev) (Var (squad_day i d))) \<in> set emitted
     \<and> LE (lpSum ins) (Num (cfg_transfers (config self))) \<in> set emitted
     \<and> set ins = {Var (t_in p k) | p k. p < length (players self w) \<and> k \<in> set (days self)}
     \<and> Var (t_in i d) \<in> set ins
     \<and> LE (lpSum outs) (Num (cfg_transfers (config self))) \<in> set emitted
     \<and> set outs = {Var (t_out p k) | p k. p < length (players self w) \<and> k \<in> set (days self)}
     \<and> Var (t_out i d) \<in> set outs
     \<and> (\<forall>a. list_all (sat a) emitted \<longrightarrow>
            real_of_int (a (t_in i d)) \<ge> real_of_int (a (squad_day i d)) - real_of_int (a prev)
          \<and> real_of_int (a (t_out i d)) \<ge> real_of_int (a prev) - real_of_int (a (squad_day i d))
          \<and> (\<Sum>p\<leftarrow>[0..<length (players self w)]. \<Sum>k\<leftarrow>days self. real_of_int (a (t_in p k)))
              \<le> cfg_transfers (config self)
          \<and> (\<Sum>p\<leftarrow>[0..<length (players self w)]. \<Sum>k\<leftarrow>days self. real_of_int (a (t_out p k)))
              \<le> cfg_transfers (config self)
          \<and> ((\<forall>p k. 0 \<le> a (t_in p k) \<and> 0 \<le> a (t_out p k))
               \<longrightarrow> real_of_int (a (t_in i d)) \<le> cfg_transfers (config self)
                 \<and> real_of_int (a (t_out i d)) \<le> cfg_transfers (config self)))"
proof -
  let ?df = "players self w"
  let ?ks = "keys2 ?df (days self)"
  let ?em = "transfer_constraints self ?df"
  let ?prev = "if d = start_gameday self then initial_squad i else squad_day i (d - 1)"
  let ?cin = "GE (Var (t_in i d)) (Sub (Var (squad_day i d)) (Var ?prev))"
  let ?cout = "GE (Var (t_out i d)) (Sub (Var ?prev) (Var (squad_day i d)))"
  let ?ins = "map (\<lambda>(p, k). Var (t_in p k)) ?ks"
  let ?outs = "map (\<lambda>(p, k). Var (t_out p k)) ?ks"
  let ?lin = "LE (lpSum ?ins) (Num (cfg_transfers (config self)))"
  let ?lout = "LE (lpSum ?outs) (Num (cfg_transfers (config self)))"
  have c: "constraints (prob (add_transfer_constraints self w)) = constraints (prob self) @ ?em"
    by (simp add: add_transfer_constraints_def)
  have "?cin \<in> set (transfer_consistency self i d)" "?cout \<in> set (transfer_consistency self i d)"
    by (simp_all add: transfer_consistency_def)
  moreover have "set (transfer_consistency self i d) \<subseteq> set ?em"
    using i d by (auto simp: transfer_constraints_def index_def)
  ultimately have m1: "?cin \<in> set ?em" and m2: "?cout \<in> set ?em" by blast+
  have m3: "?lin \<in> set ?em" and m4: "?lout \<in> set ?em"
    by (simp_all add: transfer_constraints_def transfer_limits_def)
  have s1: "set ?ins = {Var (t_in p k) | p k. p < length ?df \<and> k \<in> set (days self)}"
    by (auto simp: keys2_mem image_iff)
  have s2: "set ?outs = {Var (t_out p k) | p k. p < length ?df \<and> k \<in> set (days self)}"
    by (auto simp: keys2_mem image_iff)
  have k: "(i, d) \<in> set ?ks" using i d by (simp add: keys2_mem)
  have i1: "Var (t_in i d) \<in> set ?ins" and i2: "Var (t_out i d) \<in> set ?outs"
    using k by force+
  have sem: "real_of_int (a (t_in i d)) \<ge> real_of_int (a (squad_day i d)) - real_of_int (a ?prev)
          \<and> real_of_int (a (t_out i d)) \<ge> real_of_int (a ?prev) - real_of_int (a (squad_day i d))
          \<and> (\<Sum>p\<leftarrow>[0..<length ?df]. \<Sum>k\<leftarrow>days self. real_of_int (a (t_in p k)))
              \<le> cfg_transfers (config self)
          \<and> (\<Sum>p\<leftarrow>[0..<length ?df]. \<Sum>k\<leftarrow>days self. real_of_int (a (t_out p k)))
              \<le> cfg_transfers (config self)
          \<and> ((\<forall>p k. 0 \<le> a (t_in p k) \<and> 0 \<le> a (t_out p k))
               \<longrightarrow> real_of_int (a (t_in i d)) \<le> cfg_transfers (config self)
                 \<and> real_of_int (a (t_out i d)) \<le> cfg_transfers (config self))"
    if h: "list_all (sat a) ?em" for a
  proof -
    from h m1 m2 m3 m4 have s: "sat a ?cin" "sat a ?cout" "sat a ?lin" "sat a ?lout"
      unfolding list_all_iff by blast+
    from s(1,2) have g: "real_of_int (a (t_in i d))
                        \<ge> real_of_int (a (squad_day i d)) - real_of_int (a ?prev)"
      "real_of_int (a (t_out i d)) \<ge> real_of_int (a ?prev) - real_of_int (a (squad_day i d))"
      by simp_all
    from s(3,4) have l:
      "(\<Sum>p\<leftarrow>[0..<length ?df]. \<Sum>k\<leftarrow>days self. real_of_int (a (t_in p k)))
         \<le> cfg_transfers (config self)"
      "(\<Sum>p\<leftarrow>[0..<length ?df]. \<Sum>k\<leftarrow>days self. real_of_int (a (t_out p k)))
         \<le> cfg_transfers (config self)"
      unfolding sat.simps eval_lpSum_keys by simp_all
    have one: "real_of_int (a (f i d)) \<le> cfg_transfers (config self)"
      if nn: "\<forall>p k. 0 \<le> a (f p k)"
        and le: "eval a (lpSum (map (\<lambda>(p, k). Var (f p k)) ?ks)) \<le> cfg_transfers (config self)"
      for f
    proof -
      have "eval a (lpSum (map (\<lambda>(p, k). Var (f p k)) xs))
               = sum_list (map (\<lambda>(p, k). real_of_int (a (f p k))) xs)" for xs
        by (induction xs) auto
      then have e: "eval a (lpSum (map (\<lambda>(p, k). Var (f p k)) ?ks))
               = sum_list (map (\<lambda>(p, k). real_of_int (a (f p k))) ?ks)" .
      have "real_of_int (a (f i d)) \<in> set (map (\<lambda>(p, k). real_of_int (a (f p k))) ?ks)"
        using k by force
      moreover have "\<forall>y\<in>set (map (\<lambda>(p, k). real_of_int (a (f p k))) ?ks). 0 \<le> y"
        using nn by auto
      ultimately have "real_of_int (a (f i d))
                       \<le> sum_list (map (\<lambda>(p, k). real_of_int (a (f p k))) ?ks)"
        using elem_le_sum_list by blast
      with le e show ?thesis by simp
    qed
    have b: "(\<forall>p k. 0 \<le> a (t_in p k) \<and> 0 \<le> a (t_out p k))
               \<longrightarrow> real_of_int (a (t_in i d)) \<le> cfg_transfers (config self)
                 \<and> real_of_int (a (t_out i d)) \<le> cfg_transfers (config self)"
      using one [of t_in] one [of t_out] s(3,4) by simp
    from g l b show ?thesis by blast
  qed
  from c m1 m2 m3 s1 i1 m4 s2 i2 sem show ?thesis by blast
qed


lemma transfer_rows_of_model:
  assumes m: "build_model self w = (Inr s, w1)"
    and i: "i < length (players s w1)"
    and d: "cfg_start_gameday (config self) \<le> d" "d \<le> cfg_end_gameday (config self)"
  shows "\<exists>prev ins outs.
       prev = (if d = cfg_start_gameday (config self) then initial_squad i else squad_day i (d - 1))
     \<and> GE (Var (t_in i d)) (Sub (Var (squad_day i d)) (Var prev)) \<in> set (constraints (prob s))
     \<and> GE (Var (t_out i d)) (Sub (Var prev) (Var (squad_day i d))) \<in> set (constraints (prob s))
     \<and> LE (lpSum ins) (Num (cfg_transfers (config self))) \<in> set (constraints (prob s))
     \<and> set ins = {Var (t_in p k) | p k. p < length (players s w1)
                        \<and> cfg_start_gameday (config self) \<le> k \<and> k \<le> cfg_end_gameday (config self)}
     \<and> LE (lpSum outs) (Num (cfg_transfers (config self))) \<in> set (constraints (prob s))
     \<and> set outs = {Var (t_out p k) | p k. p < length (players s w1)
                        \<and> cfg_start_gameday (config self) \<le> k \<and> k \<le> cfg_end_gameday (config self)}"
proof -
  let ?df = "players s w1"
  let ?ks = "keys2 ?df (days s)"
  let ?prev = "if d = cfg_start_gameday (config self) then initial_squad i else squad_day i (d - 1)"
  let ?ins = "map (\<lambda>(p, k). Var (t_in p k)) ?ks"
  let ?outs = "map (\<lambda>(p, k). Var (t_out p k)) ?ks"
  note b = build_model_Inr [OF m]
  have dd: "d \<in> set (days s)" using d b(1) by simp
  have sub: "set (transfer_constraints s ?df) \<subseteq> set (constraints (prob s))"
    unfolding b(8) by auto
  have "GE (Var (t_in i d)) (Sub (Var (squad_day i d)) (Var ?prev))
          \<in> set (transfer_consistency s i d)"
    "GE (Var (t_out i d)) (Sub (Var ?prev) (Var (squad_day i d)))
          \<in> set (transfer_consistency s i d)"
    by (simp_all add: transfer_consistency_def b(2))
  moreover have "set (transfer_consistency s i d) \<subseteq> set (transfer_constraints s ?df)"
    using i dd by (auto simp: transfer_constraints_def index_def)
  ultimately have r: "GE (Var (t_in i d)) (Sub (Var (squad_day i d)) (Var ?prev))
          \<in> set (constraints (prob s))"
    "GE (Var (t_out i d)) (Sub (Var ?prev) (Var (squad_day i d))) \<in> set (constraints (prob s))"
    using sub by blast+
  have l: "LE (lpSum ?ins) (Num (cfg_transfers (config self))) \<in> set (constraints (prob s))"
    "LE (lpSum ?outs) (Num (cfg_transfers (config self))) \<in> set (constraints (prob s))"
    using sub by (auto simp: transfer_constraints_def transfer_limits_def b(3))
  have s1: "set ?ins = {Var (t_in p k) | p k. p < length ?df
                \<and> cfg_start_gameday (config self) \<le> k \<and> k \<le> cfg_end_gameday (config self)}"
    unfolding b(1) by (auto simp: keys2_mem image_iff)
  have s2: "set ?outs = {Var (t_out p k) | p k. p < length ?df
                \<and> cfg_start_gameday (config self) \<le> k \<and> k \<le> cfg_end_gameday (config self)}"
    unfolding b(1) by (auto simp: keys2_mem image_iff)
  from r l s1 s2 show ?thesis by blast
qed

text \<open>
  Claim C2. For every player \<open>i\<close> and day \<open>d\<close> of the window,
  \<^verbatim>\<open>add_transfer_constraints\<close> appends to the constraints of the problem the inequality
  \<open>transfer_in[i,d] \<ge> squad_day[i,d] - squad_day[i,d-1]\<close>, with \<open>initial_squad[i]\<close> in
  place of \<open>squad_day[i,d-1]\<close> on the first day, and the symmetric inequality for
  \<open>transfer_out\<close>. It also appends one row that bounds by the configured transfer limit
  the sum of the \<open>transfer_in\<close> variables of all players and all days of the window,
  the variable of \<open>i\<close> and \<open>d\<close> among them, and one such row for \<open>transfer_out\<close>. An
  assignment that satisfies what was appended satisfies these inequalities, and when no
  transfer variable is negative the variables of \<open>i\<close> and \<open>d\<close> are themselves below the
  limit. In the model that a run builds, these rows are among the constraints for every
  player of the table and every day from the configured start day to the configured end
  day, the start day being the first day.
\<close>

theorem add_transfer_constraints_emits:
  "(i < length (players self w) \<and> d \<in> set (days self) \<longrightarrow>
     (\<exists>emitted prev ins outs.
       constraints (prob (add_transfer_constraints self w)) = constraints (prob self) @ emitted
     \<and> prev = (if d = start_gameday self then initial_squad i else squad_day i (d - 1))
     \<and> GE (Var (t_in i d)) (Sub (Var (squad_day i d)) (Var prev)) \<in> set emitted
     \<and> GE (Var (t_out i d)) (Sub (Var prev) (Var (squad_day i d))) \<in> set emitted
     \<and> LE (lpSum ins) (Num (cfg_transfers (config self))) \<in> set emitted
     \<and> set ins = {Var (t_in p k) | p k. p < length (players self w) \<and> k \<in> set (days self)}
     \<and> Var (t_in i d) \<in> set ins
     \<and> LE (lpSum outs) (Num (cfg_transfers (config self))) \<in> set emitted
     \<and> set outs = {Var (t_out p k) | p k. p < length (players self w) \<and> k \<in> set (days self)}
     \<and> Var (t_out i d) \<in> set outs
     \<and> (\<forall>a. list_all (sat a) emitted \<longrightarrow>
            real_of_int (a (t_in i d)) \<ge> real_of_int (a (squad_day i d)) - real_of_int (a prev)
          \<and> real_of_int (a (t_out i d)) \<ge> real_of_int (a prev) - real_of_int (a (squad_day i d))
          \<and> (\<Sum>p\<leftarrow>[0..<length (players self w)]. \<Sum>k\<leftarrow>days self. real_of_int (a (t_in p k)))
              \<le> cfg_transfers (config self)
          \<and> (\<Sum>p\<leftarrow>[0..<length (players self w)]. \<Sum>k\<leftarrow>days self. real_of_int (a (t_out p k)))
              \<le> cfg_transfers (config self)
          \<and> ((\<forall>p k. 0 \<le> a (t_in p k) \<and> 0 \<le> a (t_out p k))
               \<longrightarrow> real_of_int (a (t_in i d)) \<le> cfg_transfers (config self)
                 \<and> real_of_int (a (t_out i d)) \<le> cfg_transfers (config self)))))
   \<and> (build_model self w = (Inr s, w1) \<and> i < length (players s w1)
        \<and> cfg_start_gameday (config self) \<le> d \<and> d \<le> cfg_end_gameday (config self) \<longrightarrow>
     (\<exists>prev ins outs.
       prev = (if d = cfg_start_gameday (config self) then initial_squad i else squad_day i (d - 1))
     \<and> GE (Var (t_in i d)) (Sub (Var (squad_day i d)) (Var prev)) \<in> set (constraints (prob s))
     \<and> GE (Var (t_out i d)) (Sub (Var prev) (Var (squad_day i d))) \<in> set (constraints (prob s))
     \<and> LE (lpSum ins) (Num (cfg_transfers (config self))) \<in> set (constraints (prob s))
     \<and> set ins = {Var (t_in p k) | p k. p < length (players s w1)
                        \<and> cfg_start_gameday (config self) \<le> k \<and> k \<le> cfg_end_gameday (config self)}
     \<and> LE (lpSum outs) (Num (cfg_transfers (config self))) \<in> set (constraints (prob s))
     \<and> set outs = {Var (t_out p k) | p k. p < length (players s w1)
                        \<and> cfg_start_gameday (config self) \<le> k \<and> k \<le> cfg_end_gameday (config self)}))"
  using transfer_rows_emitted [of i self w d] transfer_rows_of_model [of self w s w1 i d]
  by blast

theorem add_transfer_constraints_emits_witness:
  "0 < length (players ex_self ex_world) \<and> 1 \<in> set (days ex_self) \<and> 2 \<in> set (days ex_self)
   \<and> 1 = start_gameday ex_self
   \<and> GE (Var (t_in 0 1)) (Sub (Var (squad_day 0 1)) (Var (initial_squad 0)))
        \<in> set (constraints (prob (add_transfer_constraints ex_self ex_world)))
   \<and> GE (Var (t_out 0 1)) (Sub (Var (initial_squad 0)) (Var (squad_day 0 1)))
        \<in> set (constraints (prob (add_transfer_constraints ex_self ex_world)))
   \<and> GE (Var (t_in 0 2)) (Sub (Var (squad_day 0 2)) (Var (squad_day 0 1)))
        \<in> set (constraints (prob (add_transfer_constraints ex_self ex_world)))
   \<and> GE (Var (t_out 0 2)) (Sub (Var (squad_day 0 1)) (Var (squad_day 0 2)))
        \<in> set (constraints (prob (add_transfer_constraints ex_self ex_world)))
   \<and> (\<exists>ins outs.
          LE (lpSum ins) (Num 0) \<in> set (constraints (prob (add_transfer_constraints ex_self ex_world)))
        \<and> Var (t_in 0 1) \<in> set ins \<and> Var (t_in 9 2) \<in> set ins
        \<and> LE (lpSum outs) (Num 0) \<in> set (constraints (prob (add_transfer_constraints ex_self ex_world)))
        \<and> Var (t_out 0 1) \<in> set outs \<and> Var (t_out 9 2) \<in> set outs)
   \<and> (\<exists>s. build_model ex_optimizer ex_world = (Inr s, ex_world)
          \<and> 9 < length (players s ex_world)
          \<and> cfg_start_gameday (config ex_optimizer) \<le> 1
          \<and> 1 \<le> cfg_end_gameday (config ex_optimizer)
          \<and> GE (Var (t_in 9 1)) (Sub (Var (squad_day 9 1)) (Var (initial_squad 9)))
               \<in> set (constraints (prob s))
          \<and> GE (Var (t_out 9 1)) (Sub (Var (initial_squad 9)) (Var (squad_day 9 1)))
               \<in> set (constraints (prob s))
          \<and> (\<exists>ins outs. LE (lpSum ins) (Num 0) \<in> set (constraints (prob s))
                \<and> Var (t_in 9 1) \<in> set ins \<and> Var (t_in 0 2) \<in> set ins
                \<and> LE (lpSum outs) (Num 0) \<in> set (constraints (prob s))
                \<and> Var (t_out 9 1) \<in> set outs \<and> Var (t_out 0 2) \<in> set outs))"
proof -
  let ?C = "constraints (prob (add_transfer_constraints ex_self ex_world))"
  have p: "players ex_self ex_world = ex_players"
    by (simp add: players_def ex_self_def set_window_def ex_optimizer_def
          NBAFantasyOptimizer_def ex_world_def)
  have i: "0 < length (players ex_self ex_world)" unfolding p by (simp add: ex_players_def)
  have l9: "9 < length (players ex_self ex_world)" unfolding p by (simp add: ex_players_def)
  have d1: "1 \<in> set (days ex_self)" and d2: "2 \<in> set (days ex_self)"
    by (simp_all add: ex_self_fields)
  have st: "1 = start_gameday ex_self" "(2::int) \<noteq> start_gameday ex_self" "(2::int) - 1 = 1"
    by (simp_all add: ex_self_fields)
  have lim: "cfg_transfers (config ex_self) = 0" by (simp add: ex_self_fields ex_config_def)
  have e: "constraints (prob ex_self) = []"
    by (simp add: ex_self_def set_window_def ex_optimizer_def NBAFantasyOptimizer_def)
  from add_transfer_constraints_emits [of 0 ex_self ex_world 1, THEN conjunct1, rule_format] i d1
  obtain em1 ins outs where
    a1: "?C = constraints (prob ex_self) @ em1"
    and a2: "GE (Var (t_in 0 1))
               (Sub (Var (squad_day 0 1))
                  (Var (if 1 = start_gameday ex_self then initial_squad 0 else squad_day 0 (1 - 1))))
             \<in> set em1"
    and a3: "GE (Var (t_out 0 1))
               (Sub (Var (if 1 = start_gameday ex_self then initial_squad 0 else squad_day 0 (1 - 1)))
                  (Var (squad_day 0 1)))
             \<in> set em1"
    and a4: "LE (lpSum ins) (Num (cfg_transfers (config ex_self))) \<in> set em1"
    and a5: "set ins = {Var (t_in p k) | p k. p < length (players ex_self ex_world)
                                              \<and> k \<in> set (days ex_self)}"
    and a6: "LE (lpSum outs) (Num (cfg_transfers (config ex_self))) \<in> set em1"
    and a7: "set outs = {Var (t_out p k) | p k. p < length (players ex_self ex_world)
                                                \<and> k \<in> set (days ex_self)}"
    by blast
  from add_transfer_constraints_emits [of 0 ex_self ex_world 2, THEN conjunct1, rule_format] i d2
  obtain em2 where
    b1: "?C = constraints (prob ex_self) @ em2"
    and b2: "GE (Var (t_in 0 2))
               (Sub (Var (squad_day 0 2))
                  (Var (if 2 = start_gameday ex_self then initial_squad 0 else squad_day 0 (2 - 1))))
             \<in> set em2"
    and b3: "GE (Var (t_out 0 2))
               (Sub (Var (if 2 = start_gameday ex_self then initial_squad 0 else squad_day 0 (2 - 1)))
                  (Var (squad_day 0 2)))
             \<in> set em2"
    by blast
  have c1: "em1 = ?C" "em2 = ?C" using a1 b1 e by simp_all
  have r1: "GE (Var (t_in 0 1)) (Sub (Var (squad_day 0 1)) (Var (initial_squad 0))) \<in> set ?C"
    "GE (Var (t_out 0 1)) (Sub (Var (initial_squad 0)) (Var (squad_day 0 1))) \<in> set ?C"
    using a2 a3 st(1) unfolding c1 by simp_all
  have r2: "GE (Var (t_in 0 2)) (Sub (Var (squad_day 0 2)) (Var (squad_day 0 1))) \<in> set ?C"
    "GE (Var (t_out 0 2)) (Sub (Var (squad_day 0 1)) (Var (squad_day 0 2))) \<in> set ?C"
    using b2 b3 st(2,3) unfolding c1 by simp_all
  have m: "Var (t_in 0 1) \<in> set ins" "Var (t_in 9 2) \<in> set ins"
    "Var (t_out 0 1) \<in> set outs" "Var (t_out 9 2) \<in> set outs"
    unfolding a5 a7 using i l9 d1 d2 by blast+
  have r3: "LE (lpSum ins) (Num 0) \<in> set ?C" "LE (lpSum outs) (Num 0) \<in> set ?C"
    using a4 a6 unfolding c1 lim by simp_all
  have first: "0 < length (players ex_self ex_world) \<and> 1 \<in> set (days ex_self)
      \<and> 2 \<in> set (days ex_self) \<and> 1 = start_gameday ex_self
      \<and> GE (Var (t_in 0 1)) (Sub (Var (squad_day 0 1)) (Var (initial_squad 0))) \<in> set ?C
      \<and> GE (Var (t_out 0 1)) (Sub (Var (initial_squad 0)) (Var (squad_day 0 1))) \<in> set ?C
      \<and> GE (Var (t_in 0 2)) (Sub (Var (squad_day 0 2)) (Var (squad_day 0 1))) \<in> set ?C
      \<and> GE (Var (t_out 0 2)) (Sub (Var (squad_day 0 1)) (Var (squad_day 0 2))) \<in> set ?C
      \<and> (\<exists>ins outs. LE (lpSum ins) (Num 0) \<in> set ?C
            \<and> Var (t_in 0 1) \<in> set ins \<and> Var (t_in 9 2) \<in> set ins
            \<and> LE (lpSum outs) (Num 0) \<in> set ?C
            \<and> Var (t_out 0 1) \<in> set outs \<and> Var (t_out 9 2) \<in> set outs)"
    using i d1 d2 st(1) r1 r2 r3 m by blast
  from ex_build obtain s where b: "build_model ex_optimizer ex_world = (Inr s, ex_world)" ..
  have n: "9 < length (players s ex_world)" "0 < length (players s ex_world)"
    unfolding ex_feasible(2) [OF b] by (simp_all add: ex_players_def)
  have w: "cfg_start_gameday (config ex_optimizer) \<le> 1"
    "1 \<le> cfg_end_gameday (config ex_optimizer)"
    "cfg_start_gameday (config ex_optimizer) \<le> 2"
    "2 \<le> cfg_end_gameday (config ex_optimizer)"
    by (simp_all add: ex_optimizer_def NBAFantasyOptimizer_def ex_config_def)
  have cf: "cfg_start_gameday (config ex_optimizer) = 1" "cfg_transfers (config ex_optimizer) = 0"
    by (simp_all add: ex_optimizer_def NBAFantasyOptimizer_def ex_config_def)
  from add_transfer_constraints_emits
         [of 9 ex_optimizer ex_world 1 s ex_world, THEN conjunct2, rule_format] b n(1) w(1,2)
  obtain ins' outs' where
    g1: "GE (Var (t_in 9 1))
           (Sub (Var (squad_day 9 1))
              (Var (if 1 = cfg_start_gameday (config ex_optimizer)
                    then initial_squad 9 else squad_day 9 (1 - 1))))
         \<in> set (constraints (prob s))"
    and g2: "GE (Var (t_out 9 1))
           (Sub (Var (if 1 = cfg_start_gameday (config ex_optimizer)
                      then initial_squad 9 else squad_day 9 (1 - 1)))
              (Var (squad_day 9 1)))
         \<in> set (constraints (prob s))"
    and g3: "LE (lpSum ins') (Num (cfg_transfers (config ex_optimizer))) \<in> set (constraints (prob s))"
    and g4: "set ins' = {Var (t_in p k) | p k. p < length (players s ex_world)
               \<and> cfg_start_gameday (config ex_optimizer) \<le> k
               \<and> k \<le> cfg_end_gameday (config ex_optimizer)}"
    and g5: "LE (lpSum outs') (Num (cfg_transfers (config ex_optimizer))) \<in> set (constraints (prob s))"
    and g6: "set outs' = {Var (t_out p k) | p k. p < length (players s ex_world)
               \<and> cfg_start_gameday (config ex_optimizer) \<le> k
               \<and> k \<le> cfg_end_gameday (config ex_optimizer)}"
    by blast
  have h1: "GE (Var (t_in 9 1)) (Sub (Var (squad_day 9 1)) (Var (initial_squad 9)))
              \<in> set (constraints (prob s))"
    "GE (Var (t_out 9 1)) (Sub (Var (initial_squad 9)) (Var (squad_day 9 1)))
              \<in> set (constraints (prob s))"
    using g1 g2 unfolding cf by simp_all
  have h2: "Var (t_in 9 1) \<in> set ins'" "Var (t_in 0 2) \<in> set ins'"
    "Var (t_out 9 1) \<in> set outs'" "Var (t_out 0 2) \<in> set outs'"
    unfolding g4 g6 using n w by blast+
  have h3: "LE (lpSum ins') (Num 0) \<in> set (constraints (prob s))"
    "LE (lpSum outs') (Num 0) \<in> set (constraints (prob s))"
    using g3 g5 unfolding cf by simp_all
  have second: "\<exists>s. build_model ex_optimizer ex_world = (Inr s, ex_world)
          \<and> 9 < length (players s ex_world)
          \<and> cfg_start_gameday (config ex_optimizer) \<le> 1
          \<and> 1 \<le> cfg_end_gameday (config ex_optimizer)
          \<and> GE (Var (t_in 9 1)) (Sub (Var (squad_day 9 1)) (Var (initial_squad 9)))
               \<in> set (constraints (prob s))
          \<and> GE (Var (t_out 9 1)) (Sub (Var (initial_squad 9)) (Var (squad_day 9 1)))
               \<in> set (constraints (prob s))
          \<and> (\<exists>ins outs. LE (lpSum ins) (Num 0) \<in> set (constraints (prob s))
                \<and> Var (t_in 9 1) \<in> set ins \<and> Var (t_in 0 2) \<in> set ins
                \<and> LE (lpSum outs) (Num 0) \<in> set (constraints (prob s))
                \<and> Var (t_out 9 1) \<in> set outs \<and> Var (t_out 0 2) \<in> set outs)"
    using b n(1) w(1,2) h1 h2 h3 by blast
  from first second show ?thesis by simp
qed

subsection \<open>The override of projected points\<close>

lemma map_name_set_points: "map name (set_points nm pts df) = map name df"
  by (simp add: set_points_def comp_def cong: map_cong)

lemma adjust_loop_other: "r' \<noteq> r \<Longrightarrow> frames (adjust_loop r items w) r' = frames w r'"
  by (induction r items w rule: adjust_loop.induct) simp_all

lemma adjust_loop_solves: "solves (adjust_loop r items w) = solves w"
  by (induction r items w rule: adjust_loop.induct) simp_all

lemma adjust_loop_names: "map name (frames (adjust_loop r items w) r) = map name (frames w r)"
  by (induction r items w rule: adjust_loop.induct) (simp_all add: map_name_set_points)

lemma adjust_loop_length: "length (frames (adjust_loop r items w) r) = length (frames w r)"
  using adjust_loop_names [of r items w] by (metis length_map)

lemma adjust_loop_stdout:
  "stdout (adjust_loop r items w)
     = stdout w @ map Warning (filter (\<lambda>nm. nm \<notin> name ` set (frames w r)) (map fst items))"
proof (induction r items w rule: adjust_loop.induct)
  case (1 r w)
  show ?case by simp
next
  case (2 r player_name pts items w)
  show ?case
  proof (cases "player_name \<in> set (map name (frames w r))")
    case True
    let ?w = "w\<lparr> frames := (frames w)(r := set_points player_name pts (frames w r)) \<rparr>"
    have "name ` set (frames ?w r) = set (map name (set_points player_name pts (frames w r)))"
      by simp
    also have "\<dots> = name ` set (frames w r)"
      unfolding map_name_set_points by simp
    finally have n: "name ` set (frames ?w r) = name ` set (frames w r)" .
    from True have "stdout (adjust_loop r ((player_name, pts) # items) w)
                    = stdout (adjust_loop r items ?w)" by simp
    also have "\<dots> = stdout ?w @ map Warning
                  (filter (\<lambda>nm. nm \<notin> name ` set (frames ?w r)) (map fst items))"
      using "2.IH"(1) [OF True] .
    finally show ?thesis using True unfolding n by simp
  next
    case False
    let ?w = "w\<lparr> stdout := stdout w @ [Warning player_name] \<rparr>"
    from False have "stdout (adjust_loop r ((player_name, pts) # items) w)
                    = stdout (adjust_loop r items ?w)" by simp
    also have "\<dots> = stdout ?w @ map Warning
                  (filter (\<lambda>nm. nm \<notin> name ` set (frames ?w r)) (map fst items))"
      using "2.IH"(2) [OF False] .
    finally show ?thesis using False by simp
  qed
qed

lemma adjust_loop_row:
  assumes "distinct (map fst items)" and "i < length (frames w r)"
  shows "frames (adjust_loop r items w) r ! i
         = (case map_of items (name (frames w r ! i)) of
              Some pts \<Rightarrow> (frames w r ! i)\<lparr> points_per_game := pts \<rparr>
            | None \<Rightarrow> frames w r ! i)"
  using assms
proof (induction r items w rule: adjust_loop.induct)
  case (1 r w)
  show ?case by simp
next
  case (2 r player_name pts items w)
  let ?p = "frames w r ! i"
  from "2.prems"(1) have d: "distinct (map fst items)" and nin: "player_name \<notin> fst ` set items"
    by simp_all
  from nin have none: "map_of items player_name = None"
    by (simp add: map_of_eq_None_iff)
  show ?case
  proof (cases "player_name \<in> set (map name (frames w r))")
    case True
    let ?w = "w\<lparr> frames := (frames w)(r := set_points player_name pts (frames w r)) \<rparr>"
    have len: "i < length (frames ?w r)" using "2.prems"(2) by (simp add: set_points_def)
    have row: "frames ?w r ! i = (if name ?p = player_name then ?p\<lparr> points_per_game := pts \<rparr> else ?p)"
      using "2.prems"(2) by (simp add: set_points_def)
    have ih: "frames (adjust_loop r items ?w) r ! i
              = (case map_of items (name (frames ?w r ! i)) of
                   Some q \<Rightarrow> (frames ?w r ! i)\<lparr> points_per_game := q \<rparr>
                 | None \<Rightarrow> frames ?w r ! i)"
      using "2.IH"(1) [OF True d len] .
    have e: "adjust_loop r ((player_name, pts) # items) w = adjust_loop r items ?w"
      using True by simp
    show ?thesis
    proof (cases "name ?p = player_name")
      case True
      then show ?thesis unfolding e ih row using none by simp
    next
      case False
      then show ?thesis unfolding e ih row by simp
    qed
  next
    case False
    let ?w = "w\<lparr> stdout := stdout w @ [Warning player_name] \<rparr>"
    have ne: "name ?p \<noteq> player_name"
      using False "2.prems"(2) by (metis length_map nth_map nth_mem)
    have ih: "frames (adjust_loop r items ?w) r ! i
              = (case map_of items (name (frames ?w r ! i)) of
                   Some q \<Rightarrow> (frames ?w r ! i)\<lparr> points_per_game := q \<rparr>
                 | None \<Rightarrow> frames ?w r ! i)"
      using "2.IH"(2) [OF False d] "2.prems"(2) by simp
    have e: "adjust_loop r ((player_name, pts) # items) w = adjust_loop r items ?w"
      using False by simp
    show ?thesis unfolding e ih using ne by (simp split: option.split)
  qed
qed

lemma print_solution_frames [simp]:
  "frames (print_solution s w) = frames w" "solves (print_solution s w) = solves w"
  by (simp_all add: print_solution_def)

lemma setup_problem_cases:
  "(\<exists>e. build_model self w = (Inl e, snd (build_model self w))
        \<and> setup_problem slv self w = (Inl e, snd (build_model self w)))
   \<or> (\<exists>s. build_model self w = (Inr s, snd (build_model self w))
        \<and> fst (setup_problem slv self w)
            = Inr (s\<lparr> prob := (prob s)\<lparr> lp_status := fst (slv s) \<rparr>, varValue := snd (slv s) \<rparr>)
        \<and> snd (setup_problem slv self w)
            = print_solution
                (s\<lparr> prob := (prob s)\<lparr> lp_status := fst (slv s) \<rparr>, varValue := snd (slv s) \<rparr>)
                ((snd (build_model self w))\<lparr> solves := Suc (solves (snd (build_model self w))) \<rparr>))"
proof (cases "build_model self w")
  case (Pair r w1)
  show ?thesis
  proof (cases r)
    case (Inl e)
    with Pair show ?thesis by (simp add: setup_problem_def)
  next
    case (Inr s)
    with Pair show ?thesis
      by (simp add: setup_problem_def solve_def Let_def case_prod_beta)
  qed
qed

lemma setup_problem_frames:
  "frames (snd (setup_problem slv self w)) = frames (adjust_player_points (set_window self) w)"
  using setup_problem_cases [of self w slv] by (auto simp: build_model_snd)

lemma adjust_some:
  assumes "cfg_player_points_adjustments (config self) = Some items"
  shows "adjust_player_points (set_window self) w = adjust_loop (players_df self) items w"
  using assms by (simp add: adjust_player_points_def)

text \<open>
  Claim C8. When the configuration has a mapping of names to points, then before the
  model is built every player whose name is a key of the mapping has the mapped value as
  projected points (every other row is as it was), every key that is no player's name
  prints one warning and changes nothing, and the run goes on: if the names of the
  initial squad are all in the table, the model is built, its objective is computed from
  the overridden table, and the solver is called.
\<close>

theorem points_override_applied:
  assumes a: "cfg_player_points_adjustments (config self) = Some items"
    and dist: "distinct (map fst items)"
  shows "\<exists>r w1. build_model self w = (r, w1)
     \<and> length (players self w1) = length (players self w)
     \<and> (\<forall>i<length (players self w).
           players self w1 ! i
           = (case map_of items (name (players self w ! i)) of
                Some pts \<Rightarrow> (players self w ! i)\<lparr> points_per_game := pts \<rparr>
              | None \<Rightarrow> players self w ! i))
     \<and> stdout w1
         = stdout w @ map Warning (filter (\<lambda>nm. nm \<notin> name ` set (players self w)) (map fst items))
     \<and> (set (cfg_initial_squad (config self)) \<subseteq> name ` set (players self w)
          \<longrightarrow> (\<exists>s. r = Inr s
                 \<and> objective (prob s) = Some (objective_function s (players self w1))
                 \<and> solves (snd (setup_problem slv self w)) = Suc (solves w)))"
proof -
  let ?r = "players_df self"
  let ?w1 = "adjust_loop ?r items w"
  have w1: "adjust_player_points (set_window self) w = ?w1" using adjust_some [OF a] .
  have snd: "snd (build_model self w) = ?w1" unfolding build_model_snd w1 ..
  have c1: "build_model self w = (fst (build_model self w), ?w1)"
    using snd by (metis prod.collapse)
  have c2: "length (players self ?w1) = length (players self w)"
    by (simp add: players_def adjust_loop_length)
  have c3: "\<forall>i<length (players self w).
           players self ?w1 ! i
           = (case map_of items (name (players self w ! i)) of
                Some pts \<Rightarrow> (players self w ! i)\<lparr> points_per_game := pts \<rparr>
              | None \<Rightarrow> players self w ! i)"
    unfolding players_def using adjust_loop_row [OF dist] by blast
  have c4: "stdout ?w1
         = stdout w @ map Warning (filter (\<lambda>nm. nm \<notin> name ` set (players self w)) (map fst items))"
    unfolding players_def by (rule adjust_loop_stdout)
  have c5: "\<exists>s. fst (build_model self w) = Inr s
                 \<and> objective (prob s) = Some (objective_function s (players self ?w1))
                 \<and> solves (snd (setup_problem slv self w)) = Suc (solves w)"
    if sub: "set (cfg_initial_squad (config self)) \<subseteq> name ` set (players self w)"
  proof -
    have "name ` set (players self ?w1) = set (map name (frames ?w1 ?r))"
      by (simp add: players_def)
    also have "\<dots> = name ` set (players self w)"
      unfolding adjust_loop_names by (simp add: players_def)
    finally have "set (cfg_initial_squad (config self))
                  \<subseteq> name ` set (players self (adjust_player_points (set_window self) w))"
      using sub unfolding w1 by simp
    from build_model_ok [OF this] obtain s where m: "build_model self w = (Inr s, ?w1)"
      unfolding w1 by blast
    from build_model_Inr(4,9) [OF m]
    have o: "objective (prob s) = Some (objective_function s (players self ?w1))"
      by (simp add: players_def)
    from setup_problem_cases [of self w slv] m
    have "snd (setup_problem slv self w)
            = print_solution
                (s\<lparr> prob := (prob s)\<lparr> lp_status := fst (slv s) \<rparr>, varValue := snd (slv s) \<rparr>)
                (?w1\<lparr> solves := Suc (solves ?w1) \<rparr>)"
      by auto
    then have "solves (snd (setup_problem slv self w)) = Suc (solves w)"
      by (simp add: adjust_loop_solves)
    with m o show ?thesis by simp
  qed
  from c1 c2 c3 c4 c5 show ?thesis by blast
qed

lemma ex_adj_fields:
  "cfg_player_points_adjustments (config ex_optimizer_adj) = Some ex_items"
  "cfg_initial_squad (config ex_optimizer_adj) = [''P0'']"
  "players ex_optimizer_adj ex_world = ex_players"
  by (simp_all add: ex_optimizer_adj_def ex_config_adj_def ex_config_def
        NBAFantasyOptimizer_def players_def ex_world_def)

theorem points_override_applied_witness:
  "cfg_player_points_adjustments (config ex_optimizer_adj) = Some ex_items
   \<and> distinct (map fst ex_items)
   \<and> set (cfg_initial_squad (config ex_optimizer_adj))
        \<subseteq> name ` set (players ex_optimizer_adj ex_world)
   \<and> (\<exists>s w1. build_model ex_optimizer_adj ex_world = (Inr s, w1)
        \<and> players ex_optimizer_adj w1 ! 1 = mk_player ''P1'' 10 1 0 50
        \<and> players ex_optimizer_adj w1 ! 0 = mk_player ''P0'' 10 1 0 30
        \<and> stdout w1 = [Warning ''Nobody'']
        \<and> objective (prob s) = Some (objective_function s (players ex_optimizer_adj w1))
        \<and> solves (snd (setup_problem infeasible_solver ex_optimizer_adj ex_world)) = 1)"
proof -
  note a = ex_adj_fields(1)
  have d: "distinct (map fst ex_items)" by (simp add: ex_items_def)
  have sub: "set (cfg_initial_squad (config ex_optimizer_adj))
        \<subseteq> name ` set (players ex_optimizer_adj ex_world)"
    unfolding ex_adj_fields by (simp add: ex_players_def mk_player_def)
  have len: "1 < length (players ex_optimizer_adj ex_world)"
    "0 < length (players ex_optimizer_adj ex_world)"
    unfolding ex_adj_fields by (simp_all add: ex_players_def)
  have nm: "filter (\<lambda>nm. nm \<notin> name ` set (players ex_optimizer_adj ex_world)) (map fst ex_items)
            = [''Nobody'']"
    unfolding ex_adj_fields by (simp add: ex_items_def ex_players_def mk_player_def)
  from points_override_applied [OF a d, of ex_world infeasible_solver]
  obtain r w1 where m: "build_model ex_optimizer_adj ex_world = (r, w1)"
    and rows: "\<forall>i<length (players ex_optimizer_adj ex_world).
           players ex_optimizer_adj w1 ! i
           = (case map_of ex_items (name (players ex_optimizer_adj ex_world ! i)) of
                Some pts \<Rightarrow> (players ex_optimizer_adj ex_world ! i)\<lparr> points_per_game := pts \<rparr>
              | None \<Rightarrow> players ex_optimizer_adj ex_world ! i)"
    and out: "stdout w1 = stdout ex_world @ map Warning
               (filter (\<lambda>nm. nm \<notin> name ` set (players ex_optimizer_adj ex_world)) (map fst ex_items))"
    and run: "set (cfg_initial_squad (config ex_optimizer_adj))
                \<subseteq> name ` set (players ex_optimizer_adj ex_world)
          \<longrightarrow> (\<exists>s. r = Inr s
                 \<and> objective (prob s) = Some (objective_function s (players ex_optimizer_adj w1))
                 \<and> solves (snd (setup_problem infeasible_solver ex_optimizer_adj ex_world))
                    = Suc (solves ex_world))"
    by blast
  from run sub obtain s where s: "r = Inr s"
    "objective (prob s) = Some (objective_function s (players ex_optimizer_adj w1))"
    "solves (snd (setup_problem infeasible_solver ex_optimizer_adj ex_world)) = Suc (solves ex_world)"
    by blast
  have r1: "players ex_optimizer_adj w1 ! 1 = mk_player ''P1'' 10 1 0 50"
    using rows len(1) unfolding ex_adj_fields
    by (simp add: ex_nth ex_items_def mk_player_def)
  have r0: "players ex_optimizer_adj w1 ! 0 = mk_player ''P0'' 10 1 0 30"
    using rows len(2) unfolding ex_adj_fields
    by (simp add: ex_nth ex_items_def mk_player_def)
  have o: "stdout w1 = [Warning ''Nobody'']"
    unfolding out nm by (simp add: ex_world_def)
  have n: "solves (snd (setup_problem infeasible_solver ex_optimizer_adj ex_world)) = 1"
    using s(3) by (simp add: ex_world_def)
  from m s(1,2) r1 r0 o n a d sub show ?thesis by blast
qed

text \<open>
  Claim C9. The constructor stores the caller's players table by reference, so the
  override is a mutation of the caller's own table: after a run whose configuration has
  \<^verbatim>\<open>player_points_adjustments\<close>, the frame at the caller's address has the overridden
  points in the rows of matched players, every other column of every row and every row of
  an unmatched player is as before, and no other frame has changed.
\<close>

theorem points_override_mutates_callers_frame:
  assumes a: "cfg_player_points_adjustments cfg = Some items"
    and dist: "distinct (map fst items)"
  shows "players_df (NBAFantasyOptimizer r gdf cfg) = r
     \<and> length (frames (snd (setup_problem slv (NBAFantasyOptimizer r gdf cfg) w)) r)
         = length (frames w r)
     \<and> (\<forall>i<length (frames w r).
           name (frames (snd (setup_problem slv (NBAFantasyOptimizer r gdf cfg) w)) r ! i)
             = name (frames w r ! i)
         \<and> now_cost (frames (snd (setup_problem slv (NBAFantasyOptimizer r gdf cfg) w)) r ! i)
             = now_cost (frames w r ! i)
         \<and> element_type (frames (snd (setup_problem slv (NBAFantasyOptimizer r gdf cfg) w)) r ! i)
             = element_type (frames w r ! i)
         \<and> team (frames (snd (setup_problem slv (NBAFantasyOptimizer r gdf cfg) w)) r ! i)
             = team (frames w r ! i)
         \<and> points_per_game (frames (snd (setup_problem slv (NBAFantasyOptimizer r gdf cfg) w)) r ! i)
             = (case map_of items (name (frames w r ! i)) of
                  Some pts \<Rightarrow> pts
                | None \<Rightarrow> points_per_game (frames w r ! i))
         \<and> (map_of items (name (frames w r ! i)) = None
              \<longrightarrow> frames (snd (setup_problem slv (NBAFantasyOptimizer r gdf cfg) w)) r ! i
                  = frames w r ! i))
     \<and> (\<forall>r'. r' \<noteq> r
           \<longrightarrow> frames (snd (setup_problem slv (NBAFantasyOptimizer r gdf cfg) w)) r' = frames w r')"
proof -
  let ?self = "NBAFantasyOptimizer r gdf cfg"
  let ?w' = "snd (setup_problem slv ?self w)"
  have ref: "players_df ?self = r" and cfg: "config ?self = cfg"
    by (simp_all add: NBAFantasyOptimizer_def)
  have fr: "frames ?w' = frames (adjust_loop r items w)"
    unfolding setup_problem_frames using adjust_some [of ?self items w] a
    by (simp add: cfg ref)
  have len: "length (frames ?w' r) = length (frames w r)"
    unfolding fr by (rule adjust_loop_length)
  have row: "frames ?w' r ! i
             = (case map_of items (name (frames w r ! i)) of
                  Some pts \<Rightarrow> (frames w r ! i)\<lparr> points_per_game := pts \<rparr>
                | None \<Rightarrow> frames w r ! i)"
    if "i < length (frames w r)" for i
    unfolding fr using adjust_loop_row [OF dist that] .
  have rows: "name (frames ?w' r ! i) = name (frames w r ! i)
         \<and> now_cost (frames ?w' r ! i) = now_cost (frames w r ! i)
         \<and> element_type (frames ?w' r ! i) = element_type (frames w r ! i)
         \<and> team (frames ?w' r ! i) = team (frames w r ! i)
         \<and> points_per_game (frames ?w' r ! i)
             = (case map_of items (name (frames w r ! i)) of
                  Some pts \<Rightarrow> pts
                | None \<Rightarrow> points_per_game (frames w r ! i))
         \<and> (map_of items (name (frames w r ! i)) = None
              \<longrightarrow> frames ?w' r ! i = frames w r ! i)"
    if "i < length (frames w r)" for i
    unfolding row [OF that] by (simp split: option.split)
  have other: "frames ?w' r' = frames w r'" if "r' \<noteq> r" for r'
    unfolding fr using that by (rule adjust_loop_other)
  from ref len rows other show ?thesis by blast
qed

theorem points_override_mutates_callers_frame_witness:
  "cfg_player_points_adjustments ex_config_adj = Some ex_items
   \<and> distinct (map fst ex_items)
   \<and> 1 < length (frames ex_world 0)
   \<and> frames ex_world 0 ! 1 = mk_player ''P1'' 10 1 0 28
   \<and> frames (snd (setup_problem infeasible_solver
                     (NBAFantasyOptimizer 0 ex_games ex_config_adj) ex_world)) 0 ! 1
       = mk_player ''P1'' 10 1 0 50
   \<and> 0 < length (frames ex_world 0)
   \<and> map_of ex_items (name (frames ex_world 0 ! 0)) = None
   \<and> frames (snd (setup_problem infeasible_solver
                     (NBAFantasyOptimizer 0 ex_games ex_config_adj) ex_world)) 0 ! 0
       = frames ex_world 0 ! 0"
proof -
  let ?w' = "snd (setup_problem infeasible_solver
                     (NBAFantasyOptimizer 0 ex_games ex_config_adj) ex_world)"
  have a: "cfg_player_points_adjustments ex_config_adj = Some ex_items"
    by (simp add: ex_config_adj_def)
  have d: "distinct (map fst ex_items)" by (simp add: ex_items_def)
  have f: "frames ex_world 0 = ex_players" by (simp add: ex_world_def)
  have l: "1 < length (frames ex_world 0)" "0 < length (frames ex_world 0)"
    unfolding f by (simp_all add: ex_players_def)
  have p1: "frames ex_world 0 ! 1 = mk_player ''P1'' 10 1 0 28" unfolding f by (rule ex_nth)
  have n0: "map_of ex_items (name (frames ex_world 0 ! 0)) = None"
    unfolding f by (simp add: ex_nth mk_player_def ex_items_def)
  have m1: "map_of ex_items (name (frames ex_world 0 ! 1)) = Some 50"
    unfolding f by (simp add: ex_nth mk_player_def ex_items_def)
  note t = points_override_mutates_callers_frame
    [OF a d, of 0 ex_games infeasible_solver ex_world]
  note rows = t [THEN conjunct2, THEN conjunct2, THEN conjunct1, rule_format]
  from rows [OF l(1)] m1 p1
  have "name (frames ?w' 0 ! 1) = ''P1''" "now_cost (frames ?w' 0 ! 1) = 10"
    "element_type (frames ?w' 0 ! 1) = 1" "team (frames ?w' 0 ! 1) = 0"
    "points_per_game (frames ?w' 0 ! 1) = 50"
    by (simp_all add: mk_player_def)
  then have q1: "frames ?w' 0 ! 1 = mk_player ''P1'' 10 1 0 50"
    by (simp add: mk_player_def)
  from rows [OF l(2)] n0 have q0: "frames ?w' 0 ! 0 = frames ex_world 0 ! 0" by blast
  from a d l p1 q1 n0 q0 show ?thesis by blast
qed

subsection \<open>A name of the initial squad that no player has\<close>

lemma fix_initial_missing:
  assumes "nm \<in> set nms" and "nm \<notin> name ` set df"
  shows "fix_initial df nms self = Inl IndexError"
  using assms(1)
proof (induction nms arbitrary: self)
  case Nil
  then show ?case by simp
next
  case (Cons x xs)
  show ?case
  proof (cases "first_index df x")
    case (Inl e)
    then show ?thesis by (cases e) simp
  next
    case (Inr i)
    with first_index_missing [OF assms(2)] have "nm \<noteq> x" by auto
    with Cons.prems have "nm \<in> set xs" by simp
    from Cons.IH [OF this] Inr show ?thesis by simp
  qed
qed

lemma adjust_player_points_names:
  "name ` set (players self (adjust_player_points self' w)) = name ` set (players self w)"
  if "players_df self' = players_df self"
proof (cases "cfg_player_points_adjustments (config self')")
  case None
  then show ?thesis by (simp add: adjust_player_points_def)
next
  case (Some items)
  have "name ` set (players self (adjust_player_points self' w))
        = set (map name (frames (adjust_loop (players_df self) items w) (players_df self)))"
    using Some that by (simp add: adjust_player_points_def players_def)
  also have "\<dots> = name ` set (players self w)"
    unfolding adjust_loop_names by (simp add: players_def)
  finally show ?thesis .
qed

lemma adjust_player_points_stdout:
  "stdout (adjust_player_points self w)
   = stdout w @ map Warning
       (filter (\<lambda>nm. nm \<notin> name ` set (players self w))
          (case cfg_player_points_adjustments (config self) of
             None \<Rightarrow> [] | Some items \<Rightarrow> map fst items))"
  by (cases "cfg_player_points_adjustments (config self)")
     (simp_all add: adjust_player_points_def adjust_loop_stdout players_def)

lemma adjust_player_points_solves: "solves (adjust_player_points self w) = solves w"
  by (cases "cfg_player_points_adjustments (config self)")
     (simp_all add: adjust_player_points_def adjust_loop_solves)

lemma build_model_missing:
  assumes "nm \<in> set (cfg_initial_squad (config self))"
    and "nm \<notin> name ` set (players self w)"
  shows "build_model self w = (Inl IndexError, adjust_player_points (set_window self) w)"
proof -
  let ?w = "adjust_player_points (set_window self) w"
  let ?s2 = "initialize_variables (set_window self) ?w"
  have p: "players ?s2 ?w = players self ?w" "config ?s2 = config self"
    by (simp_all add: players_def initialize_variables_def set_window_def)
  have "nm \<notin> name ` set (players self ?w)"
    using assms(2) adjust_player_points_names [of "set_window self" self w] by simp
  from fix_initial_missing [OF assms(1) this]
  have "add_constraints ?s2 ?w = Inl IndexError"
    by (simp add: add_constraints_def add_initial_player_constraints_def Let_def p)
  then show ?thesis unfolding build_model_unfold by simp
qed

lemma main_missing:
  assumes "nm \<in> set (cfg_initial_squad cfg)" and "nm \<notin> name ` set pdf"
  shows "main slv cfg pdf gdf
         = (Inl IndexError,
            adjust_player_points (set_window (NBAFantasyOptimizer 0 gdf cfg))
              \<lparr> frames = (\<lambda>_. [])(0 := pdf), stdout = [], solves = 0 \<rparr>)"
proof -
  let ?self = "NBAFantasyOptimizer 0 gdf cfg"
  let ?w0 = "\<lparr> frames = (\<lambda>_. [])(0 := pdf), stdout = [], solves = 0 \<rparr>"
  have c: "nm \<in> set (cfg_initial_squad (config ?self))" "nm \<notin> name ` set (players ?self ?w0)"
    using assms by (simp_all add: NBAFantasyOptimizer_def players_def)
  from build_model_missing [OF c]
  have "setup_problem slv ?self ?w0 = (Inl IndexError, adjust_player_points (set_window ?self) ?w0)"
    by (simp add: setup_problem_def)
  then show ?thesis by (simp add: main_def Let_def)
qed

text \<open>
  Claim C4, as the code has it. If the list of names for the initial squad has a name
  that no player of the table has, the run ends with the \<^verbatim>\<open>IndexError\<close> that the lookup
  of the first such name raises: the solver is never called, the message of a failed
  solve is not printed, and nothing is printed but the warnings of the points override,
  so the error names no player.
\<close>

theorem missing_initial_player_aborts:
  assumes "nm \<in> set (cfg_initial_squad cfg)" and "nm \<notin> name ` set pdf"
  shows "fst (main slv cfg pdf gdf) = Inl IndexError
       \<and> solves (snd (main slv cfg pdf gdf)) = 0
       \<and> NoOptimal \<notin> set (stdout (snd (main slv cfg pdf gdf)))
       \<and> stdout (snd (main slv cfg pdf gdf))
           = map Warning
               (filter (\<lambda>n. n \<notin> name ` set pdf)
                  (case cfg_player_points_adjustments cfg of
                     None \<Rightarrow> [] | Some items \<Rightarrow> map fst items))"
proof -
  let ?self = "set_window (NBAFantasyOptimizer 0 gdf cfg)"
  let ?w0 = "\<lparr> frames = (\<lambda>_. [])(0 := pdf), stdout = [], solves = 0 \<rparr>"
  note m = main_missing [OF assms, of slv gdf]
  have f: "config (NBAFantasyOptimizer 0 gdf cfg) = cfg"
    "players (NBAFantasyOptimizer 0 gdf cfg) ?w0 = pdf"
    by (simp_all add: NBAFantasyOptimizer_def players_def)
  have out: "stdout (snd (main slv cfg pdf gdf))
           = map Warning
               (filter (\<lambda>n. n \<notin> name ` set pdf)
                  (case cfg_player_points_adjustments cfg of
                     None \<Rightarrow> [] | Some items \<Rightarrow> map fst items))"
    unfolding m using adjust_player_points_stdout [of ?self ?w0] by (simp add: f)
  have "NoOptimal \<notin> set (stdout (snd (main slv cfg pdf gdf)))"
    unfolding out by auto
  moreover have "solves (snd (main slv cfg pdf gdf)) = 0"
    unfolding m by (simp add: adjust_player_points_solves)
  moreover have "fst (main slv cfg pdf gdf) = Inl IndexError" unfolding m by simp
  ultimately show ?thesis using out by blast
qed

theorem missing_initial_player_aborts_witness:
  "''Nobody'' \<in> set (cfg_initial_squad ex_config_ghosts)
   \<and> ''Nobody'' \<notin> name ` set ex_players
   \<and> fst (main infeasible_solver ex_config_ghosts ex_players ex_games) = Inl IndexError
   \<and> solves (snd (main infeasible_solver ex_config_ghosts ex_players ex_games)) = 0
   \<and> NoOptimal \<notin> set (stdout (snd (main infeasible_solver ex_config_ghosts ex_players ex_games)))
   \<and> stdout (snd (main infeasible_solver ex_config_ghosts ex_players ex_games)) = []"
proof -
  have a: "''Nobody'' \<in> set (cfg_initial_squad ex_config_ghosts)"
    by (simp add: ex_config_ghosts_def)
  have b: "''Nobody'' \<notin> name ` set ex_players"
    by (simp add: ex_players_def mk_player_def)
  have c: "cfg_player_points_adjustments ex_config_ghosts = None"
    by (simp add: ex_config_ghosts_def ex_config_def)
  from missing_initial_player_aborts [OF a b, of infeasible_solver ex_games] a b
  show ?thesis unfolding c by simp
qed

text \<open>Against claim C4 as it is stated: with two names that no player has there is one
  error and not one for each name, the outcome is the very outcome of a run with another
  missing name, and no line is printed, so that no offending name is reported.\<close>

theorem missing_initial_player_counterexample:
  "main infeasible_solver ex_config_ghosts ex_players ex_games = (Inl IndexError, ex_world)
   \<and> main infeasible_solver ex_config_nobody ex_players ex_games = (Inl IndexError, ex_world)
   \<and> stdout ex_world = []"
proof -
  have g: "''Ghost'' \<in> set (cfg_initial_squad ex_config_ghosts)"
    "''Ghost'' \<notin> name ` set ex_players"
    by (simp_all add: ex_config_ghosts_def ex_players_def mk_player_def)
  have n: "''Nobody'' \<in> set (cfg_initial_squad ex_config_nobody)"
    "''Nobody'' \<notin> name ` set ex_players"
    by (simp_all add: ex_config_nobody_def ex_players_def mk_player_def)
  have w: "adjust_player_points (set_window (NBAFantasyOptimizer 0 ex_games cfg))
             \<lparr> frames = (\<lambda>_. [])(0 := ex_players), stdout = [], solves = 0 \<rparr> = ex_world"
    if "cfg_player_points_adjustments cfg = None" for cfg
    using that by (simp add: adjust_player_points_def NBAFantasyOptimizer_def ex_world_def)
  have "main infeasible_solver ex_config_ghosts ex_players ex_games = (Inl IndexError, ex_world)"
    unfolding main_missing [OF g]
    by (simp add: w ex_config_ghosts_def ex_config_def)
  moreover
  have "main infeasible_solver ex_config_nobody ex_players ex_games = (Inl IndexError, ex_world)"
    unfolding main_missing [OF n]
    by (simp add: w ex_config_nobody_def ex_config_def)
  moreover have "stdout ex_world = []" by (simp add: ex_world_def)
  ultimately show ?thesis by blast
qed

subsection \<open>The report after a solve that is not optimal\<close>

lemma ex_poor_build:
  "\<exists>s. build_model (NBAFantasyOptimizer 0 ex_games ex_config_poor)
          \<lparr> frames = (\<lambda>_. [])(0 := ex_players), stdout = [], solves = 0 \<rparr>
        = (Inr s, ex_world)"
proof -
  let ?self = "NBAFantasyOptimizer 0 ex_games ex_config_poor"
  let ?w0 = "\<lparr> frames = (\<lambda>_. [])(0 := ex_players), stdout = [], solves = 0 \<rparr>"
  have a: "adjust_player_points (set_window ?self) ?w0 = ex_world"
    by (simp add: adjust_player_points_def NBAFantasyOptimizer_def ex_config_poor_def
          ex_config_def ex_world_def)
  have "set (cfg_initial_squad (config ?self))
        \<subseteq> name ` set (players ?self (adjust_player_points (set_window ?self) ?w0))"
    unfolding a
    by (simp add: NBAFantasyOptimizer_def ex_config_poor_def ex_config_def players_def
          ex_world_def ex_players_def mk_player_def)
  from build_model_ok [OF this] show ?thesis unfolding a .
qed

text \<open>With a budget of 0 the small league has no feasible assignment: the report of the
  solver, infeasible, is the right one.\<close>

lemma ex_poor_infeasible:
  assumes m: "build_model (NBAFantasyOptimizer 0 ex_games ex_config_poor)
          \<lparr> frames = (\<lambda>_. [])(0 := ex_players), stdout = [], solves = 0 \<rparr>
        = (Inr s, ex_world)"
  shows "\<not> feasible s a"
proof
  assume f: "feasible s a"
  note b = build_model_Inr [OF m]
  have pl: "players s ex_world = ex_players"
    using b(4) by (simp add: players_def ex_world_def NBAFantasyOptimizer_def)
  have cfg: "config s = ex_config_poor" using b(3) by (simp add: NBAFantasyOptimizer_def)
  from f have c: "\<forall>c\<in>set (constraints (prob s)). sat a c"
    by (simp add: feasible_def list_all_iff)
  have "sat a (initial_count_constraint ex_players)"
    using c unfolding b(8) pl by simp
  then have s1: "(\<Sum>i\<leftarrow>index ex_players. real_of_int (a (initial_squad i))) = 10"
    by (simp add: initial_count_constraint_def INITIAL_PLAYERS_COUNT_def comp_def)
  have "hd (budget_constraints s ex_players) \<in> set (constraints (prob s))"
    unfolding b(8) pl by (simp add: budget_constraints_def)
  with c have "sat a (hd (budget_constraints s ex_players))" by blast
  then have s2: "(\<Sum>i\<leftarrow>index ex_players.
                    now_cost (ex_players ! i) * real_of_int (a (initial_squad i))) \<le> 0"
    by (simp add: budget_constraints_def cfg ex_config_poor_def comp_def)
  from s1 s2 show False
    by (simp add: ex_index ex_nth mk_player_def)
qed

text \<open>
  Claim C5 fails on the code. When the solver returns a status other than optimal,
  \<^verbatim>\<open>print_solution\<close> prints the failure and returns without a transfer plan or an
  objective value, but \<^verbatim>\<open>main\<close> then calls \<^verbatim>\<open>print_initial_squad\<close> all the same: the
  heading of the initial squad is printed, and under it the name of every player whose
  variable the solver left at 1.
\<close>

theorem initial_squad_printed_when_not_optimal:
  assumes m: "build_model (NBAFantasyOptimizer 0 gdf cfg)
                \<lparr> frames = (\<lambda>_. [])(0 := pdf), stdout = [], solves = 0 \<rparr> = (Inr s, w1)"
    and st: "fst (slv s) \<noteq> LpStatusOptimal"
  shows "stdout (snd (main slv cfg pdf gdf))
         = stdout w1
           @ NoOptimal # InitialSquadHeader
             # map (\<lambda>i. SquadLine (name (frames w1 0 ! i)))
                 (filter (\<lambda>i. snd (slv s) (initial_squad i) = Some 1) (index (frames w1 0)))"
proof -
  let ?self = "NBAFantasyOptimizer 0 gdf cfg"
  let ?w0 = "\<lparr> frames = (\<lambda>_. [])(0 := pdf), stdout = [], solves = 0 \<rparr>"
  let ?s' = "s\<lparr> prob := (prob s)\<lparr> lp_status := fst (slv s) \<rparr>, varValue := snd (slv s) \<rparr>"
  let ?w2 = "print_solution ?s' (w1\<lparr> solves := Suc (solves w1) \<rparr>)"
  from setup_problem_cases [of ?self ?w0 slv] m
  have sp: "fst (setup_problem slv ?self ?w0) = Inr ?s'" "snd (setup_problem slv ?self ?w0) = ?w2"
    by auto
  then have "setup_problem slv ?self ?w0 = (Inr ?s', ?w2)"
    by (metis prod.collapse)
  then have mn: "snd (main slv cfg pdf gdf) = print_initial_squad ?s' ?w2"
    by (simp add: main_def Let_def)
  have o2: "stdout ?w2 = stdout w1 @ [NoOptimal]"
    using st by (simp add: print_solution_def)
  have p2: "players ?s' ?w2 = frames w1 0"
    using build_model_Inr(4) [OF m] by (simp add: players_def NBAFantasyOptimizer_def)
  show ?thesis
    unfolding mn print_initial_squad_def Let_def p2 by (simp add: o2)
qed

theorem initial_squad_printed_when_not_optimal_witness:
  "\<exists>s. build_model (NBAFantasyOptimizer 0 ex_games ex_config_poor)
          \<lparr> frames = (\<lambda>_. [])(0 := ex_players), stdout = [], solves = 0 \<rparr>
        = (Inr s, ex_world)
      \<and> fst (infeasible_solver s) \<noteq> LpStatusOptimal
      \<and> stdout (snd (main infeasible_solver ex_config_poor ex_players ex_games))
          = [NoOptimal, InitialSquadHeader, SquadLine ''P0'']"
proof -
  from ex_poor_build obtain s where
    m: "build_model (NBAFantasyOptimizer 0 ex_games ex_config_poor)
          \<lparr> frames = (\<lambda>_. [])(0 := ex_players), stdout = [], solves = 0 \<rparr>
        = (Inr s, ex_world)" ..
  have st: "fst (infeasible_solver s) \<noteq> LpStatusOptimal"
    by (simp add: infeasible_solver_def)
  have f: "frames ex_world 0 = ex_players" "stdout ex_world = []"
    by (simp_all add: ex_world_def)
  have sel: "filter (\<lambda>i. snd (infeasible_solver s) (initial_squad i) = Some 1) (index ex_players)
             = [0]"
    by (simp add: infeasible_solver_def ex_index)
  have "stdout (snd (main infeasible_solver ex_config_poor ex_players ex_games))
          = [NoOptimal, InitialSquadHeader, SquadLine ''P0'']"
    unfolding initial_squad_printed_when_not_optimal
        [where slv = infeasible_solver and s = s, OF m st] f sel
    by (simp add: ex_nth mk_player_def)
  with m st show ?thesis by blast
qed

subsection \<open>The size of a day's squad\<close>

lemma big_index: "index ex_players_big = [0, 1, 2, 3, 4, 5, 6, 7, 8, 9, 10]"
  by (simp add: index_def ex_players_big_def ex_players_def upt_rec)

lemma big_nth:
  "ex_players_big ! 0 = mk_player ''P0'' 10 1 0 30" "ex_players_big ! 1 = mk_player ''P1'' 10 1 0 28"
  "ex_players_big ! 2 = mk_player ''P2'' 10 1 1 26" "ex_players_big ! 3 = mk_player ''P3'' 10 1 1 24"
  "ex_players_big ! 4 = mk_player ''P4'' 10 1 2 22" "ex_players_big ! 5 = mk_player ''P5'' 10 2 2 20"
  "ex_players_big ! 6 = mk_player ''P6'' 10 2 3 18" "ex_players_big ! 7 = mk_player ''P7'' 10 2 3 16"
  "ex_players_big ! 8 = mk_player ''P8'' 10 2 4 14" "ex_players_big ! 9 = mk_player ''P9'' 10 2 4 12"
  "ex_players_big ! 10 = mk_player ''P10'' 10 3 5 40"
  "ex_players_big ! Suc 0 = mk_player ''P1'' 10 1 0 28"
  by (simp_all add: ex_players_big_def ex_players_def)

lemma big_self_fields:
  "days ex_self_big = [1, 2]" "start_gameday ex_self_big = 1" "config ex_self_big = ex_config_big"
  by (simp_all add: ex_self_big_def set_window_def ex_optimizer_big_def NBAFantasyOptimizer_def
        ex_config_big_def ex_config_def upto_rec1)

lemma big_sat_initial: "sat ex_assignment_big (initial_count_constraint ex_players_big)"
  by (simp add: initial_count_constraint_def big_index INITIAL_PLAYERS_COUNT_def)

lemma big_sat_budget:
  "list_all (sat ex_assignment_big) (budget_constraints ex_self_big ex_players_big)"
  by (simp add: budget_constraints_def big_index big_self_fields big_nth mk_player_def
        ex_config_big_def ex_config_def)

lemma big_keys2: "keys2 ex_players_big [1, 2] =
   [(0,1),(0,2),(1,1),(1,2),(2,1),(2,2),(3,1),(3,2),(4,1),(4,2),
    (5,1),(5,2),(6,1),(6,2),(7,1),(7,2),(8,1),(8,2),(9,1),(9,2),(10,1),(10,2)]"
  by (simp add: keys2_def big_index)

lemma big_sat_transfer:
  "list_all (sat ex_assignment_big) (transfer_constraints ex_self_big ex_players_big)"
  by (simp add: transfer_constraints_def transfer_limits_def transfer_consistency_def
        big_index big_keys2 big_self_fields ex_config_big_def ex_config_def)

lemma big_of_type:
  "of_type ex_players_big 1 = [0, 1, 2, 3, 4]" "of_type ex_players_big 2 = [5, 6, 7, 8, 9]"
  by (simp_all add: of_type_def big_index big_nth mk_player_def)

lemma big_sat_daily:
  "list_all (sat ex_assignment_big) (daily_constraints ex_self_big ex_players_big)"
  by (simp add: daily_constraints_def lineup_constraints_def squad_size_constraints_def
        membership_constraints_def big_index big_of_type big_self_fields
        MIN_PLAYER_TYPE_COUNT_def TOTAL_PLAYERS_PER_DAY_def PLAYER_TYPE_COUNT_def)

lemma big_teams: "unique (map team ex_players_big) = [0, 1, 2, 3, 4, 5]"
  by (simp add: unique_def ex_players_big_def ex_players_def mk_player_def)

lemma big_sat_team:
  "list_all (sat ex_assignment_big) (team_constraints ex_self_big ex_players_big)"
  by (simp add: team_constraints_def big_teams big_index big_nth mk_player_def big_self_fields
        MAX_PLAYERS_FROM_SAME_TEAM_def)

lemma big_adjust: "adjust_player_points (set_window ex_optimizer_big) ex_world_big = ex_world_big"
  by (simp add: adjust_player_points_def ex_optimizer_big_def
        NBAFantasyOptimizer_def ex_config_big_def ex_config_def)

lemma big_players_of: "players ex_optimizer_big ex_world_big = ex_players_big"
  by (simp add: players_def ex_optimizer_big_def NBAFantasyOptimizer_def ex_world_big_def)

lemma big_build: "\<exists>s. build_model ex_optimizer_big ex_world_big = (Inr s, ex_world_big)"
proof -
  have "set (cfg_initial_squad (config ex_optimizer_big))
        \<subseteq> name ` set (players ex_optimizer_big
                          (adjust_player_points (set_window ex_optimizer_big) ex_world_big))"
    unfolding big_adjust big_players_of
    by (simp add: ex_optimizer_big_def NBAFantasyOptimizer_def ex_config_big_def ex_config_def
          ex_players_big_def ex_players_def mk_player_def)
  from build_model_ok [OF this] show ?thesis by (simp add: big_adjust)
qed

lemma big_assignment_range: "0 \<le> ex_assignment_big v \<and> ex_assignment_big v \<le> 1"
  by (cases v) simp_all

lemma big_feasible:
  assumes m: "build_model ex_optimizer_big ex_world_big = (Inr s, ex_world_big)"
  shows "feasible s ex_assignment_big" and "players s ex_world_big = ex_players_big"
proof -
  note b = build_model_Inr [OF m]
  note lu = build_model_low_up [OF m]
  have cfg: "config s = ex_config_big" "players_df s = 0"
    using b(3,4) by (simp_all add: ex_optimizer_big_def NBAFantasyOptimizer_def)
  show pl: "players s ex_world_big = ex_players_big"
    using cfg(2) by (simp add: players_def ex_world_big_def)
  have f: "days s = days ex_self_big" "config s = config ex_self_big"
    "start_gameday s = start_gameday ex_self_big"
    using b(1,2,3)
    by (simp_all add: big_self_fields ex_optimizer_big_def NBAFantasyOptimizer_def
          ex_config_big_def ex_config_def upto_rec1)
  have cs: "constraints (prob s) =
             [initial_count_constraint ex_players_big]
           @ budget_constraints ex_self_big ex_players_big
           @ transfer_constraints ex_self_big ex_players_big
           @ daily_constraints ex_self_big ex_players_big
           @ team_constraints ex_self_big ex_players_big"
    unfolding b(8) pl lists_cong [OF f]
    by (simp add: ex_optimizer_big_def NBAFantasyOptimizer_def)
  have must: "ex_assignment_big (initial_squad i) = 1"
    if "i < length (players ex_optimizer_big ex_world_big)"
      "name (players ex_optimizer_big ex_world_big ! i)
         \<in> set (cfg_initial_squad (config ex_optimizer_big))" for i
  proof -
    from that(2) have n: "name (ex_players_big ! i) = ''P0''"
      unfolding big_players_of
      by (simp add: ex_optimizer_big_def NBAFantasyOptimizer_def ex_config_big_def ex_config_def)
    from that(1) have "i \<in> set (index ex_players_big)"
      unfolding big_players_of by (simp add: index_def)
    then have "i \<in> {0, 1, 2, 3, 4, 5, 6, 7, 8, 9, 10}" unfolding big_index by simp
    with n have "i = 0" by (auto simp: big_nth mk_player_def)
    then show ?thesis by simp
  qed
  have bound: "lowBound s v \<le> ex_assignment_big v \<and> ex_assignment_big v \<le> upBound s v" for v
  proof -
    from lu have u: "upBound s v = 1"
      and l: "lowBound s v = 0
              \<or> (\<exists>i. v = initial_squad i \<and> i < length (players ex_optimizer_big ex_world_big)
                    \<and> name (players ex_optimizer_big ex_world_big ! i)
                        \<in> set (cfg_initial_squad (config ex_optimizer_big))
                    \<and> lowBound s v = 1)"
      by blast+
    from l show ?thesis
    proof
      assume "lowBound s v = 0"
      then show ?thesis using u big_assignment_range [of v] by simp
    next
      assume "\<exists>i. v = initial_squad i \<and> i < length (players ex_optimizer_big ex_world_big)
                    \<and> name (players ex_optimizer_big ex_world_big ! i)
                        \<in> set (cfg_initial_squad (config ex_optimizer_big))
                    \<and> lowBound s v = 1"
      then obtain i where i: "v = initial_squad i"
        "i < length (players ex_optimizer_big ex_world_big)"
        "name (players ex_optimizer_big ex_world_big ! i)
           \<in> set (cfg_initial_squad (config ex_optimizer_big))"
        "lowBound s v = 1" by blast
      from must [OF i(2,3)] i(1,4) u show ?thesis by simp
    qed
  qed
  show "feasible s ex_assignment_big"
    unfolding feasible_def cs
    using bound big_sat_initial big_sat_budget big_sat_transfer big_sat_daily big_sat_team
    by (auto simp: list_all_iff)
qed

lemma big_squad: "length (squad_of ex_assignment_big ex_players_big d) = 11"
  by (simp add: squad_of_def big_index)

lemma eval_squad_sum_update:
  assumes "j \<notin> set xs"
  shows "eval (a(squad_day j d := x)) (lpSum (map (\<lambda>i. Var (squad_day i d')) xs))
         = eval a (lpSum (map (\<lambda>i. Var (squad_day i d')) xs))"
  using assms by (induction xs) auto

lemma squad_size_constraints_update:
  assumes "element_type (df ! j) \<noteq> 1" and "element_type (df ! j) \<noteq> 2"
  shows "list_all (sat (a(squad_day j d := x))) (squad_size_constraints df d')
         = list_all (sat a) (squad_size_constraints df d')"
proof -
  have n: "j \<notin> set (of_type df 1)" "j \<notin> set (of_type df 2)"
    using assms by (simp_all add: of_type_def)
  have "sat (a(squad_day j d := x)) (EQ (lpSum (map (\<lambda>i. Var (squad_day i d')) xs)) (Num c))
        = sat a (EQ (lpSum (map (\<lambda>i. Var (squad_day i d')) xs)) (Num c))"
    if "j \<notin> set xs" for xs c
    unfolding sat.simps eval_squad_sum_update [OF that] by simp
  with n show ?thesis by (simp add: squad_size_constraints_def)
qed

lemma squad_size_when_two_types:
  assumes m: "build_model self w = (Inr s, w1)" and f: "feasible s a"
    and d: "cfg_start_gameday (config self) \<le> d" "d \<le> cfg_end_gameday (config self)"
    and t: "\<forall>p\<in>set (players s w1). element_type p = 1 \<or> element_type p = 2"
  shows "length (squad_of a (players s w1) d) = 10"
proof -
  let ?df = "players s w1"
  let ?sq = "squad_of a ?df d"
  have c: "length (filter (\<lambda>i. element_type (?df ! i) = 1) ?sq) = 5"
    "length (filter (\<lambda>i. element_type (?df ! i) = 2) ?sq) = 5"
    using squad_type_counts [OF m f d] by simp_all
  have "\<forall>i\<in>set ?sq. element_type (?df ! i) = 1 \<or> element_type (?df ! i) = 2"
    using t by (auto simp: squad_of_def index_def)
  then have "filter (\<lambda>i. \<not> element_type (?df ! i) = 1) ?sq
             = filter (\<lambda>i. element_type (?df ! i) = 2) ?sq"
    by (intro filter_cong) auto
  moreover have "length ?sq = length (filter (\<lambda>i. element_type (?df ! i) = 1) ?sq)
                   + length (filter (\<lambda>i. \<not> element_type (?df ! i) = 1) ?sq)"
    using sum_length_filter_compl [of "\<lambda>i. element_type (?df ! i) = 1" ?sq] by simp
  ultimately show ?thesis using c by simp
qed

text \<open>
  Claim C10, as the code has it. No constraint fixes the size of a day's squad: the two
  squad constraints of a day count the players of position type 1 and those of position
  type 2, so whether they hold does not depend on the squad variable of a player of any
  other type. When every player of the table has type 1 or 2, the squad of every day of
  the window has exactly 10 members in every feasible assignment. With a player of
  another type the squad can be larger: the league of eleven has a feasible assignment
  with a squad of 11.
\<close>

theorem squad_size_fixed_only_through_position_types:
  "(element_type (df ! j) \<noteq> 1 \<and> element_type (df ! j) \<noteq> 2
      \<longrightarrow> (\<forall>a x d d'. list_all (sat (a(squad_day j d := x))) (squad_size_constraints df d')
                        = list_all (sat a) (squad_size_constraints df d')))
   \<and> (build_model self w = (Inr s, w1) \<and> feasible s a
        \<and> cfg_start_gameday (config self) \<le> d \<and> d \<le> cfg_end_gameday (config self)
        \<and> (\<forall>p\<in>set (players s w1). element_type p = 1 \<or> element_type p = 2)
      \<longrightarrow> length (squad_of a (players s w1) d) = 10)
   \<and> (\<exists>s'. build_model ex_optimizer_big ex_world_big = (Inr s', ex_world_big)
           \<and> feasible s' ex_assignment_big
           \<and> element_type (players s' ex_world_big ! 10) = 3
           \<and> length (squad_of ex_assignment_big (players s' ex_world_big) 1) = 11)"
proof -
  have p1: "element_type (df ! j) \<noteq> 1 \<and> element_type (df ! j) \<noteq> 2
      \<longrightarrow> (\<forall>a x d d'. list_all (sat (a(squad_day j d := x))) (squad_size_constraints df d')
                        = list_all (sat a) (squad_size_constraints df d'))"
    using squad_size_constraints_update by blast
  have p2: "build_model self w = (Inr s, w1) \<and> feasible s a
        \<and> cfg_start_gameday (config self) \<le> d \<and> d \<le> cfg_end_gameday (config self)
        \<and> (\<forall>p\<in>set (players s w1). element_type p = 1 \<or> element_type p = 2)
      \<longrightarrow> length (squad_of a (players s w1) d) = 10"
    using squad_size_when_two_types by blast
  from big_build obtain s' where
    m: "build_model ex_optimizer_big ex_world_big = (Inr s', ex_world_big)" ..
  note bf = big_feasible [OF m]
  have "element_type (players s' ex_world_big ! 10) = 3"
    unfolding bf(2) by (simp add: big_nth mk_player_def)
  moreover have "length (squad_of ex_assignment_big (players s' ex_world_big) 1) = 11"
    unfolding bf(2) by (rule big_squad)
  ultimately have p3: "\<exists>s'. build_model ex_optimizer_big ex_world_big = (Inr s', ex_world_big)
           \<and> feasible s' ex_assignment_big
           \<and> element_type (players s' ex_world_big ! 10) = 3
           \<and> length (squad_of ex_assignment_big (players s' ex_world_big) 1) = 11"
    using m bf(1) by blast
  from p1 p2 p3 show ?thesis by blast
qed

theorem squad_size_fixed_only_through_position_types_witness:
  "element_type (ex_players_big ! 10) \<noteq> 1 \<and> element_type (ex_players_big ! 10) \<noteq> 2
   \<and> list_all (sat (ex_assignment(squad_day 10 1 := 1))) (squad_size_constraints ex_players_big 1)
       = list_all (sat ex_assignment) (squad_size_constraints ex_players_big 1)
   \<and> (\<exists>s. build_model ex_optimizer ex_world = (Inr s, ex_world)
          \<and> feasible s ex_assignment
          \<and> cfg_start_gameday (config ex_optimizer) \<le> 1
          \<and> 1 \<le> cfg_end_gameday (config ex_optimizer)
          \<and> list_all (\<lambda>p. element_type p = 1 \<or> element_type p = 2) (players s ex_world)
          \<and> length (squad_of ex_assignment (players s ex_world) 1) = 10)"
proof -
  have t: "element_type (ex_players_big ! 10) \<noteq> 1 \<and> element_type (ex_players_big ! 10) \<noteq> 2"
    by (simp add: big_nth mk_player_def)
  note th1 = squad_size_fixed_only_through_position_types
    [of ex_players_big 10 ex_optimizer ex_world, THEN conjunct1, rule_format, OF t]
  have w1: "list_all (sat (ex_assignment(squad_day 10 1 := 1))) (squad_size_constraints ex_players_big 1)
       = list_all (sat ex_assignment) (squad_size_constraints ex_players_big 1)"
    by (rule th1)
  from ex_build obtain s where m: "build_model ex_optimizer ex_world = (Inr s, ex_world)" ..
  have f: "feasible s ex_assignment" using ex_feasible(1) [OF m] .
  have d: "cfg_start_gameday (config ex_optimizer) \<le> 1"
    "1 \<le> cfg_end_gameday (config ex_optimizer)"
    by (simp_all add: ex_optimizer_def NBAFantasyOptimizer_def ex_config_def)
  have ty: "list_all (\<lambda>p. element_type p = 1 \<or> element_type p = 2) (players s ex_world)"
    unfolding ex_feasible(2) [OF m] by (simp add: ex_players_def mk_player_def)
  then have ty': "\<forall>p\<in>set (players s ex_world). element_type p = 1 \<or> element_type p = 2"
    by (simp add: list_all_iff)
  note th2 = squad_size_fixed_only_through_position_types
    [of ex_players_big 10 ex_optimizer ex_world s ex_world ex_assignment 1,
     THEN conjunct2, THEN conjunct1, rule_format]
  have "length (squad_of ex_assignment (players s ex_world) 1) = 10"
    using th2 m f d ty' by blast
  with t w1 m f d ty show ?thesis by blast
qed

subsection \<open>A league where the budget keeps the squad at ten\<close>

lemma feasibleI:
  assumes m: "build_model self w = (Inr s, w1)"
    and e: "constraints (prob self) = []"
    and rng: "\<And>v. 0 \<le> a v \<and> a v \<le> 1"
    and must: "\<And>i. i < length (players self w1)
                 \<Longrightarrow> name (players self w1 ! i) \<in> set (cfg_initial_squad (config self))
                 \<Longrightarrow> a (initial_squad i) = 1"
    and sat: "sat a (initial_count_constraint (players s w1))"
      "list_all (sat a) (budget_constraints s (players s w1))"
      "list_all (sat a) (transfer_constraints s (players s w1))"
      "list_all (sat a) (daily_constraints s (players s w1))"
      "list_all (sat a) (team_constraints s (players s w1))"
  shows "feasible s a"
proof -
  note b = build_model_Inr [OF m]
  note lu = build_model_low_up [OF m]
  have bound: "lowBound s v \<le> a v \<and> a v \<le> upBound s v" for v
  proof -
    from lu have u: "upBound s v = 1"
      and l: "lowBound s v = 0
              \<or> (\<exists>i. v = initial_squad i \<and> i < length (players self w1)
                    \<and> name (players self w1 ! i) \<in> set (cfg_initial_squad (config self))
                    \<and> lowBound s v = 1)"
      by blast+
    from l show ?thesis
    proof
      assume "lowBound s v = 0"
      then show ?thesis using u rng [of v] by simp
    next
      assume "\<exists>i. v = initial_squad i \<and> i < length (players self w1)
                    \<and> name (players self w1 ! i) \<in> set (cfg_initial_squad (config self))
                    \<and> lowBound s v = 1"
      then obtain i where i: "v = initial_squad i" "i < length (players self w1)"
        "name (players self w1 ! i) \<in> set (cfg_initial_squad (config self))"
        "lowBound s v = 1" by blast
      from must [OF i(2,3)] i(1,4) u show ?thesis by simp
    qed
  qed
  show ?thesis
    unfolding feasible_def b(8) e using bound sat by (auto simp: list_all_iff)
qed

lemma tight_self_fields:
  "days ex_self_tight = [1, 2]" "start_gameday ex_self_tight = 1"
  "config ex_self_tight = ex_config_tight"
  by (simp_all add: ex_self_tight_def set_window_def ex_optimizer_tight_def
        NBAFantasyOptimizer_def ex_config_tight_def ex_config_def upto_rec1)

lemma tight_sat_initial: "sat ex_assignment_ten (initial_count_constraint ex_players_big)"
  by (simp add: initial_count_constraint_def big_index INITIAL_PLAYERS_COUNT_def)

lemma tight_sat_budget:
  "list_all (sat ex_assignment_ten) (budget_constraints ex_self_tight ex_players_big)"
  by (simp add: budget_constraints_def big_index tight_self_fields big_nth mk_player_def
        ex_config_tight_def ex_config_def)

lemma tight_sat_transfer:
  "list_all (sat ex_assignment_ten) (transfer_constraints ex_self_tight ex_players_big)"
  by (simp add: transfer_constraints_def transfer_limits_def transfer_consistency_def
        big_index big_keys2 tight_self_fields ex_config_tight_def ex_config_def)

lemma tight_sat_daily:
  "list_all (sat ex_assignment_ten) (daily_constraints ex_self_tight ex_players_big)"
  by (simp add: daily_constraints_def lineup_constraints_def squad_size_constraints_def
        membership_constraints_def big_index big_of_type tight_self_fields
        MIN_PLAYER_TYPE_COUNT_def TOTAL_PLAYERS_PER_DAY_def PLAYER_TYPE_COUNT_def)

lemma tight_sat_team:
  "list_all (sat ex_assignment_ten) (team_constraints ex_self_tight ex_players_big)"
  by (simp add: team_constraints_def big_teams big_index big_nth mk_player_def tight_self_fields
        MAX_PLAYERS_FROM_SAME_TEAM_def)

lemma tight_fields:
  "config ex_optimizer_tight = ex_config_tight" "players_df ex_optimizer_tight = 0"
  "constraints (prob ex_optimizer_tight) = []"
  "players ex_optimizer_tight ex_world_big = ex_players_big"
  "adjust_player_points (set_window ex_optimizer_tight) ex_world_big = ex_world_big"
  by (simp_all add: ex_optimizer_tight_def NBAFantasyOptimizer_def players_def ex_world_big_def
        adjust_player_points_def ex_config_tight_def ex_config_def)

lemma tight_build:
  "\<exists>s. build_model ex_optimizer_tight ex_world_big = (Inr s, ex_world_big)"
proof -
  have "set (cfg_initial_squad (config ex_optimizer_tight))
        \<subseteq> name ` set (players ex_optimizer_tight
                          (adjust_player_points (set_window ex_optimizer_tight) ex_world_big))"
    unfolding tight_fields
    by (simp add: ex_config_tight_def ex_config_def ex_players_big_def ex_players_def
          mk_player_def)
  from build_model_ok [OF this] show ?thesis by (simp add: tight_fields)
qed

lemma tight_model:
  assumes m: "build_model ex_optimizer_tight ex_world_big = (Inr s, ex_world_big)"
  shows "players s ex_world_big = ex_players_big"
    and "budget_constraints s df = budget_constraints ex_self_tight df"
    and "transfer_constraints s df = transfer_constraints ex_self_tight df"
    and "daily_constraints s df = daily_constraints ex_self_tight df"
    and "team_constraints s df = team_constraints ex_self_tight df"
    and "days s = [1, 2]"
proof -
  note b = build_model_Inr [OF m]
  show "players s ex_world_big = ex_players_big"
    using b(4) by (simp add: players_def tight_fields ex_world_big_def)
  have f: "days s = days ex_self_tight" "config s = config ex_self_tight"
    "start_gameday s = start_gameday ex_self_tight"
    using b(1,2,3)
    by (simp_all add: tight_self_fields tight_fields ex_config_tight_def ex_config_def upto_rec1)
  show "budget_constraints s df = budget_constraints ex_self_tight df"
    "transfer_constraints s df = transfer_constraints ex_self_tight df"
    "daily_constraints s df = daily_constraints ex_self_tight df"
    "team_constraints s df = team_constraints ex_self_tight df"
    by (rule lists_cong [OF f])+
  show "days s = [1, 2]" using f(1) by (simp add: tight_self_fields)
qed

lemma tight_feasible:
  assumes m: "build_model ex_optimizer_tight ex_world_big = (Inr s, ex_world_big)"
  shows "feasible s ex_assignment_ten"
proof (rule feasibleI [OF m])
  note t = tight_model [OF m]
  show "constraints (prob ex_optimizer_tight) = []" by (rule tight_fields)
  show "0 \<le> ex_assignment_ten v \<and> ex_assignment_ten v \<le> 1" for v
    by (cases v) simp_all
  show "ex_assignment_ten (initial_squad i) = 1"
    if "i < length (players ex_optimizer_tight ex_world_big)"
      "name (players ex_optimizer_tight ex_world_big ! i)
         \<in> set (cfg_initial_squad (config ex_optimizer_tight))" for i
  proof -
    from that(2) have n: "name (ex_players_big ! i) = ''P0''"
      unfolding tight_fields by (simp add: ex_config_tight_def ex_config_def)
    from that(1) have "i \<in> set (index ex_players_big)"
      unfolding tight_fields by (simp add: index_def)
    then have "i \<in> {0, 1, 2, 3, 4, 5, 6, 7, 8, 9, 10}" unfolding big_index by simp
    with n have "i = 0" by (auto simp: big_nth mk_player_def)
    then show ?thesis by simp
  qed
  show "sat ex_assignment_ten (initial_count_constraint (players s ex_world_big))"
    unfolding t(1) by (rule tight_sat_initial)
  show "list_all (sat ex_assignment_ten) (budget_constraints s (players s ex_world_big))"
    unfolding t by (rule tight_sat_budget)
  show "list_all (sat ex_assignment_ten) (transfer_constraints s (players s ex_world_big))"
    unfolding t by (rule tight_sat_transfer)
  show "list_all (sat ex_assignment_ten) (daily_constraints s (players s ex_world_big))"
    unfolding t by (rule tight_sat_daily)
  show "list_all (sat ex_assignment_ten) (team_constraints s (players s ex_world_big))"
    unfolding t by (rule tight_sat_team)
qed

lemma tight_squad_is_ten:
  assumes m: "build_model ex_optimizer_tight ex_world_big = (Inr s, ex_world_big)"
    and f: "feasible s a" and d: "1 \<le> d" "d \<le> 2"
  shows "length (squad_of a (players s ex_world_big) d) = 10"
proof -
  note t = tight_model [OF m]
  note b = build_model_Inr [OF m]
  note p = feasible_parts [OF m f]
  have dd: "d \<in> set (days s)" using d unfolding t(6) by auto
  have bin: "a (squad_day i d) = 0 \<or> a (squad_day i d) = 1" if "i < 11" for i
  proof -
    have "i < length (players s ex_world_big)"
      unfolding t(1) using that by (simp add: ex_players_big_def ex_players_def)
    from all_variables_mem(2) [OF this dd] p(1) show ?thesis by blast
  qed
  have q: "list_all (sat a) (squad_size_constraints ex_players_big d)"
    using daily_parts(2) [OF p(4) dd] unfolding t(1) .
  have c: "\<forall>c\<in>set (constraints (prob s)). sat a c"
    using f by (simp add: feasible_def list_all_iff)
  have "LE (lpSum (map (\<lambda>i. Mul (now_cost (ex_players_big ! i)) (Var (squad_day i d)))
                    (index ex_players_big)))
           (Num (cfg_budget (config ex_self_tight)))
        \<in> set (budget_constraints ex_self_tight ex_players_big)"
    using dd unfolding t(6) by (auto simp: budget_constraints_def tight_self_fields)
  then have "LE (lpSum (map (\<lambda>i. Mul (now_cost (ex_players_big ! i)) (Var (squad_day i d)))
                    (index ex_players_big)))
           (Num (cfg_budget (config ex_self_tight))) \<in> set (constraints (prob s))"
    unfolding b(8) t by simp
  with c have bud: "sat a (LE (lpSum (map (\<lambda>i. Mul (now_cost (ex_players_big ! i))
                                            (Var (squad_day i d))) (index ex_players_big)))
                              (Num (cfg_budget (config ex_self_tight))))"
    by blast
  have len: "real (length (squad_of a ex_players_big d))
             = (\<Sum>i\<leftarrow>index ex_players_big. real_of_int (a (squad_day i d)))"
  proof -
    have "\<forall>i\<in>set (index ex_players_big). a (squad_day i d) = 0 \<or> a (squad_day i d) = 1"
      using bin unfolding big_index by auto
    from sum_list_binary [OF this] show ?thesis by (simp add: squad_of_def)
  qed
  have x10: "0 \<le> a (squad_day 10 d)" using bin [of 10] by auto
  from q have s5: "real_of_int (a (squad_day 0 d)) + real_of_int (a (squad_day 1 d))
        + real_of_int (a (squad_day 2 d)) + real_of_int (a (squad_day 3 d))
        + real_of_int (a (squad_day 4 d)) = 5"
    "real_of_int (a (squad_day 5 d)) + real_of_int (a (squad_day 6 d))
        + real_of_int (a (squad_day 7 d)) + real_of_int (a (squad_day 8 d))
        + real_of_int (a (squad_day 9 d)) = 5"
    by (simp_all add: squad_size_constraints_def big_of_type PLAYER_TYPE_COUNT_def)
  from bud have s100: "10 * real_of_int (a (squad_day 0 d)) + 10 * real_of_int (a (squad_day 1 d))
        + 10 * real_of_int (a (squad_day 2 d)) + 10 * real_of_int (a (squad_day 3 d))
        + 10 * real_of_int (a (squad_day 4 d)) + 10 * real_of_int (a (squad_day 5 d))
        + 10 * real_of_int (a (squad_day 6 d)) + 10 * real_of_int (a (squad_day 7 d))
        + 10 * real_of_int (a (squad_day 8 d)) + 10 * real_of_int (a (squad_day 9 d))
        + 10 * real_of_int (a (squad_day 10 d)) \<le> 100"
    by (simp add: big_index big_nth mk_player_def tight_self_fields ex_config_tight_def
          ex_config_def)
  have "real (length (squad_of a ex_players_big d)) = 10"
    unfolding len big_index using s5 s100 x10 by simp
  then show ?thesis unfolding t(1) by simp
qed

text \<open>Against claim C10 as it is stated: in this league every feasible assignment has a
  squad of exactly 10 members on each day of the window, and feasible assignments exist,
  although the eleventh player has position type 3; so a squad of exactly 10 does not
  need a table with types 1 and 2 only.\<close>

theorem squad_of_ten_with_a_third_type_counterexample:
  "(\<exists>s. build_model ex_optimizer_tight ex_world_big = (Inr s, ex_world_big)
         \<and> feasible s ex_assignment_ten)
   \<and> \<not> ((\<forall>s a d. build_model ex_optimizer_tight ex_world_big = (Inr s, ex_world_big)
                  \<and> feasible s a
                  \<and> cfg_start_gameday (config ex_optimizer_tight) \<le> d
                  \<and> d \<le> cfg_end_gameday (config ex_optimizer_tight)
                \<longrightarrow> length (squad_of a (players s ex_world_big) d) = 10)
          \<longrightarrow> (\<forall>p\<in>set (frames ex_world_big 0). element_type p = 1 \<or> element_type p = 2))"
proof -
  from tight_build obtain s where
    m: "build_model ex_optimizer_tight ex_world_big = (Inr s, ex_world_big)" ..
  have a: "\<exists>s. build_model ex_optimizer_tight ex_world_big = (Inr s, ex_world_big)
         \<and> feasible s ex_assignment_ten"
    using m tight_feasible [OF m] by blast
  have w: "cfg_start_gameday (config ex_optimizer_tight) = 1"
    "cfg_end_gameday (config ex_optimizer_tight) = 2"
    by (simp_all add: tight_fields ex_config_tight_def ex_config_def)
  have b: "\<forall>s a d. build_model ex_optimizer_tight ex_world_big = (Inr s, ex_world_big)
                  \<and> feasible s a
                  \<and> cfg_start_gameday (config ex_optimizer_tight) \<le> d
                  \<and> d \<le> cfg_end_gameday (config ex_optimizer_tight)
                \<longrightarrow> length (squad_of a (players s ex_world_big) d) = 10"
    unfolding w using tight_squad_is_ten by blast
  have "mk_player ''P10'' 10 3 5 40 \<in> set (frames ex_world_big 0)"
    by (simp add: ex_world_big_def ex_players_big_def)
  moreover have "element_type (mk_player ''P10'' 10 3 5 40) = 3" by (simp add: mk_player_def)
  ultimately have c: "\<not> (\<forall>p\<in>set (frames ex_world_big 0). element_type p = 1 \<or> element_type p = 2)"
    by force
  from a b c show ?thesis by blast
qed

end
